theory Spec2Isabelle
  imports Complex_Main
begin

section \<open>JavaScript strings and values\<close>

text \<open>
  A JavaScript string is modelled as a \<^typ>\<open>string\<close>: a list of code units, restricted to
  the range 0..255. \<open>String.prototype.trim\<close> removes white space and line terminators;
  in that range these are TAB, LF, VT, FF, CR, SPACE and NBSP.
\<close>

definition isWhiteSpace :: "char \<Rightarrow> bool" where
  "isWhiteSpace c = (of_char c \<in> {9::nat, 10, 11, 12, 13, 32, 160})"

definition trim :: "string \<Rightarrow> string" where
  "trim s = rev (dropWhile isWhiteSpace (rev (dropWhile isWhiteSpace s)))"

text \<open>\<open>s.startsWith(t)\<close>, \<open>s.endsWith(t)\<close> and \<open>s.includes(t)\<close>.\<close>

definition startsWith :: "string \<Rightarrow> string \<Rightarrow> bool" where
  "startsWith s t = (take (length t) s = t)"

definition endsWith :: "string \<Rightarrow> string \<Rightarrow> bool" where
  "endsWith s t = (length t \<le> length s \<and> drop (length s - length t) s = t)"

fun includes_str :: "string \<Rightarrow> string \<Rightarrow> bool" where
  "includes_str [] t = (t = [])"
| "includes_str (c # s) t = (startsWith (c # s) t \<or> includes_str s t)"

text \<open>\<open>s.slice(0, -n)\<close> for \<open>n > 0\<close>: all but the last \<open>n\<close> code units, the empty string
  when \<open>s\<close> is shorter than \<open>n\<close>.\<close>

definition slice_end :: "string \<Rightarrow> nat \<Rightarrow> string" where
  "slice_end s n = take (length s - n) s"

text \<open>\<open>a || b\<close> on strings, where the empty string is falsy; an \<open>undefined\<close> operand is
  \<^const>\<open>None\<close>.\<close>

definition truthy :: "string \<Rightarrow> bool" where
  "truthy s = (s \<noteq> [])"

definition or_else :: "string \<Rightarrow> string \<Rightarrow> string" where
  "or_else a b = (if truthy a then a else b)"

definition truthy_opt :: "string option \<Rightarrow> bool" where
  "truthy_opt v = (case v of None \<Rightarrow> False | Some s \<Rightarrow> truthy s)"

text \<open>\<open>Number.prototype.toString\<close> on a non-negative integer: its decimal digits.\<close>

definition digit :: "nat \<Rightarrow> char" where
  "digit d = ''0123456789'' ! d"

fun toString :: "nat \<Rightarrow> string" where
  "toString n = (if n < 10 then [digit n] else toString (n div 10) @ [digit (n mod 10)])"

declare toString.simps [simp del]

text \<open>\<open>xs.join(sep)\<close>.\<close>

fun join :: "string \<Rightarrow> string list \<Rightarrow> string" where
  "join sep [] = []"
| "join sep [x] = x"
| "join sep (x # y # ys) = x @ sep @ join sep (y # ys)"

text \<open>\<open>s.replace(/pat/g, '')\<close> for a literal, non-empty pattern: every match is removed,
  scanning from the left and resuming after each match.\<close>

function remove_all :: "string \<Rightarrow> string \<Rightarrow> string" where
  "remove_all pat [] = []"
| "remove_all pat (c # s) =
     (if pat \<noteq> [] \<and> startsWith (c # s) pat
      then remove_all pat (drop (length pat) (c # s))
      else c # remove_all pat s)"
  by pat_completeness auto
termination
  by (relation "measure (\<lambda>(pat, s). length s)") auto

declare remove_all.simps(2) [simp del]

section \<open>Data model (types.ts)\<close>

text \<open>
  The interfaces of \<open>types.ts\<close>, with the fields the generation service and the controller
  read or write; presentation fields (fonts, theme, avatar and the like) are left out.
  Field names carry a prefix where two interfaces share a name. An optional field
  (\<open>f?: T\<close>) is a \<^typ>\<open>'a option\<close>.
\<close>

record Persona =
  p_id :: string
  p_name :: string
  systemInstruction :: string
  longTermMemory :: "string option"

datatype Provider = Gemini | OpenAI

record EngineConfig =
  provider :: Provider
  baseUrl :: string
  apiKey :: string
  model :: string
  temperature :: real
  autoMemoryThreshold :: int
  autonomousReading :: bool
  autoAnnotationCount :: int

datatype Author = AI | User

record ChatTurn =
  t_role :: string
  t_text :: string

record Annotation =
  a_id :: string
  bookId :: string
  textSelection :: string
  comment :: string
  author :: Author
  timestamp :: nat
  personaId :: "string option"
  topic :: "string option"
  isAutonomous :: "bool option"
  startOffset :: nat
  endOffset :: nat
  chatHistory :: "ChatTurn list option"

record Book =
  b_id :: string
  title :: string
  content :: string
  b_author :: "string option"
  category :: string
  addedAt :: nat
  timeSpent :: nat
  isOriginal :: "bool option"

section \<open>Parsed JSON and the values read from it\<close>

text \<open>
  What \<open>JSON.parse\<close> and \<open>response.json()\<close> return. An object keeps its members in
  order; a key written twice has the value written last. \<open>undefined\<close> is not a JSON value:
  a JavaScript value that may be \<open>undefined\<close> is a \<^typ>\<open>'a option\<close>.
\<close>

datatype json =
    JNull
  | JBool bool
  | JNum real
  | JStr string
  | JArr "json list"
  | JObj "(string \<times> json) list"

text \<open>The condition \<open>v\<close> of \<open>v || d\<close>: \<open>undefined\<close>, \<open>null\<close>, \<open>false\<close>, \<open>0\<close> and the empty
  string are falsy.\<close>

fun truthy_js :: "json option \<Rightarrow> bool" where
  "truthy_js None = False"
| "truthy_js (Some JNull) = False"
| "truthy_js (Some (JBool b)) = b"
| "truthy_js (Some (JNum x)) = (x \<noteq> 0)"
| "truthy_js (Some (JStr s)) = (s \<noteq> [])"
| "truthy_js (Some (JArr xs)) = True"
| "truthy_js (Some (JObj kvs)) = True"

text \<open>
  \<open>v.k\<close> for a value \<open>v\<close> that is neither \<open>null\<close> nor \<open>undefined\<close>, and a name \<open>k\<close> that
  no prototype defines (\<open>error\<close>, \<open>message\<close>, \<open>candidates\<close>, \<open>content\<close>, \<open>parts\<close>, \<open>text\<close>,
  \<open>choices\<close>): the member of an object, \<open>undefined\<close> on everything else.
\<close>

fun get_prop :: "json \<Rightarrow> string \<Rightarrow> json option" where
  "get_prop (JObj kvs) k = map_of (rev kvs) k"
| "get_prop v k = None"

text \<open>\<open>v[0]\<close> for such a value: the first element of an array, the first code unit of a
  string, the member \<open>"0"\<close> of an object.\<close>

fun index0 :: "json \<Rightarrow> json option" where
  "index0 (JArr xs) = (case xs of [] \<Rightarrow> None | x # _ \<Rightarrow> Some x)"
| "index0 (JStr s) = (case s of [] \<Rightarrow> None | c # _ \<Rightarrow> Some (JStr [c]))"
| "index0 (JObj kvs) = map_of (rev kvs) ''0''"
| "index0 v = None"

text \<open>\<open>v?.k\<close> and \<open>v?.[0]\<close>: \<open>undefined\<close> when \<open>v\<close> is \<open>null\<close> or \<open>undefined\<close>.\<close>

fun opt_prop :: "json option \<Rightarrow> string \<Rightarrow> json option" where
  "opt_prop None k = None"
| "opt_prop (Some JNull) k = None"
| "opt_prop (Some v) k = get_prop v k"

fun opt_index0 :: "json option \<Rightarrow> json option" where
  "opt_index0 None = None"
| "opt_index0 (Some JNull) = None"
| "opt_index0 (Some v) = index0 v"

text \<open>What a failed call throws. \<open>Error v\<close> is \<open>new Error(v)\<close>: its message is \<open>String(v)\<close>,
  for a string \<open>v\<close> the string itself.\<close>

datatype error =
    Error json
  | TypeError         \<comment> \<open>a property read on \<open>null\<close>, a call of something that is no function\<close>
  | SyntaxError       \<comment> \<open>\<open>JSON.parse\<close> or \<open>response.json()\<close> on text that is not JSON\<close>
  | NetworkError      \<comment> \<open>\<open>fetch\<close> rejected\<close>

text \<open>\<open>data.k\<close> with no guard, on a parsed JSON value: a TypeError on \<open>null\<close>.\<close>

fun strict_prop :: "json \<Rightarrow> string \<Rightarrow> error + json option" where
  "strict_prop JNull k = Inl TypeError"
| "strict_prop v k = Inr (get_prop v k)"

text \<open>A string method called on a value: a TypeError unless the value is a string.\<close>

fun asString :: "json \<Rightarrow> error + string" where
  "asString (JStr s) = Inr s"
| "asString v = Inl TypeError"

section \<open>Requests and responses\<close>

record Content =
  role :: string
  parts :: "string list"    \<comment> \<open>the \<open>text\<close> of each part\<close>

record Message =
  m_role :: string
  m_content :: string

text \<open>\<open>generationConfigOverride\<close>: the callers pass \<open>{ responseMimeType }\<close>, \<open>{ temperature }\<close>
  or nothing.\<close>

record Override =
  ov_temperature :: "real option"
  ov_responseMimeType :: "string option"

record GenerationConfig =
  gc_temperature :: real
  gc_responseMimeType :: "string option"

record GeminiBody =
  contents :: "Content list"
  generationConfig :: GenerationConfig
  g_systemInstruction :: "string option"

record OpenAIBody =
  o_model :: string
  messages :: "Message list"
  o_temperature :: real

datatype Body = ToGemini GeminiBody | ToOpenAI OpenAIBody

record Endpoint =
  url :: string
  headers :: "(string \<times> string) list"

record Request =
  endpoint :: Endpoint
  r_body :: Body

text \<open>An HTTP response: \<open>body\<close> is what \<open>response.json()\<close> resolves to, \<^const>\<open>None\<close> when the
  body is not JSON text and \<open>response.json()\<close> rejects. \<open>response.ok\<close> is a status in
  200..299.\<close>

record Response =
  status :: nat
  body :: "json option"

definition ok :: "Response \<Rightarrow> bool" where
  "ok r = (200 \<le> status r \<and> status r \<le> 299)"

text \<open>What lies outside the program: the environment variable \<open>process.env.API_KEY\<close>, the
  built-ins \<open>JSON.stringify\<close> and \<open>JSON.parse\<close>, and the network behind \<open>fetch\<close>.\<close>

record World =
  API_KEY :: "string option"
  JSON_stringify :: "json \<Rightarrow> string"
  JSON_parse :: "string \<Rightarrow> error + json"
  fetch :: "Request \<Rightarrow> error + Response"

section \<open>Generation service (services/geminiService.ts)\<close>

subsection \<open>Response extractor\<close>

definition cleanJSON :: "string \<Rightarrow> string" where
  "cleanJSON text = trim (remove_all ''```'' (remove_all ''```json'' text))"

subsection \<open>Endpoint resolver\<close>

text \<open>\<open>(config.apiKey || process.env.API_KEY || '').trim()\<close>.\<close>

definition resolveApiKey :: "World \<Rightarrow> EngineConfig \<Rightarrow> string" where
  "resolveApiKey w config =
     trim (if truthy (apiKey config) then apiKey config
           else (case API_KEY w of Some k \<Rightarrow> or_else k [] | None \<Rightarrow> []))"

text \<open>The base URL of \<open>getGeminiEndpoint\<close> after its three normalisation steps.\<close>

definition geminiBaseUrl :: "EngineConfig \<Rightarrow> string" where
  "geminiBaseUrl config =
     (let baseUrl0 = trim (or_else (baseUrl config) ''https://generativelanguage.googleapis.com'');
          baseUrl1 = (if endsWith baseUrl0 ''/'' then slice_end baseUrl0 1 else baseUrl0);
          version = ''v1beta''
      in if endsWith baseUrl1 version then slice_end baseUrl1 (length version + 1) else baseUrl1)"

definition getGeminiEndpoint :: "World \<Rightarrow> EngineConfig \<Rightarrow> string \<Rightarrow> Endpoint" where
  "getGeminiEndpoint w config method =
     (let apiKey' = resolveApiKey w config;
          baseUrl' = geminiBaseUrl config;
          version = ''v1beta'';
          model' = or_else (model config) ''gemini-3-flash-preview''
      in \<lparr>url = baseUrl' @ ''/'' @ version @ ''/models/'' @ model' @ '':'' @ method
                  @ ''?key='' @ apiKey',
          headers = [(''Content-Type'', ''application/json''), (''x-goog-api-key'', apiKey')]\<rparr>)"

text \<open>The base URL of \<open>getOpenAIEndpoint\<close> after trimming and removing one trailing slash.\<close>

definition openAIBaseUrl :: "EngineConfig \<Rightarrow> string" where
  "openAIBaseUrl config =
     (let baseUrl0 = trim (or_else (baseUrl config) ''https://api.siliconflow.cn'')
      in if endsWith baseUrl0 ''/'' then slice_end baseUrl0 1 else baseUrl0)"

definition getOpenAIEndpoint :: "World \<Rightarrow> EngineConfig \<Rightarrow> Endpoint" where
  "getOpenAIEndpoint w config =
     (let baseUrl1 = openAIBaseUrl config;
          baseUrl2 =
            (if \<not> includes_str baseUrl1 ''/chat/completions''
             then (if \<not> endsWith baseUrl1 ''/v1'' then baseUrl1 @ ''/v1'' else baseUrl1)
                    @ ''/chat/completions''
             else baseUrl1)
      in \<lparr>url = baseUrl2,
          headers = [(''Content-Type'', ''application/json''),
                     (''Authorization'', ''Bearer '' @ resolveApiKey w config)]\<rparr>)"

subsection \<open>Format adapter\<close>

text \<open>\<open>systemInstruction\<close> is an optional parameter; \<open>if (systemInstruction)\<close> holds for a
  string that is not empty.\<close>

definition mapGeminiToOpenAI :: "Content list \<Rightarrow> string option \<Rightarrow> Message list" where
  "mapGeminiToOpenAI cs systemInstruction' =
     (if truthy_opt systemInstruction'
      then [\<lparr>m_role = ''system'', m_content = the systemInstruction'\<rparr>] else [])
     @ map (\<lambda>item. \<lparr>m_role = (if role item = ''model'' then ''assistant'' else ''user''),
                     m_content = join [CHR 0x0A] (parts item)\<rparr>) cs"

subsection \<open>Provider clients\<close>

text \<open>
  Each client is split at its \<open>await fetch\<close>: the request it builds (a TypeError when
  building it throws), and what it makes of the response. The client itself returns the
  requests it sent together with its result.
\<close>

definition callGemini_request ::
  "World \<Rightarrow> Content list \<Rightarrow> EngineConfig \<Rightarrow> string option \<Rightarrow> Override option \<Rightarrow> Request" where
  "callGemini_request w cs config systemInstruction' override =
     \<lparr>endpoint = getGeminiEndpoint w config ''generateContent'',
      r_body = ToGemini
        \<lparr>contents = cs,
         generationConfig =
           \<lparr>gc_temperature =
              (case override of
                 Some ov \<Rightarrow> (case ov_temperature ov of Some t \<Rightarrow> t | None \<Rightarrow> temperature config)
               | None \<Rightarrow> temperature config),
            gc_responseMimeType =
              (case override of Some ov \<Rightarrow> ov_responseMimeType ov | None \<Rightarrow> None)\<rparr>,
         g_systemInstruction =
           (if truthy_opt systemInstruction' then systemInstruction' else None)\<rparr>\<rparr>"

definition callGemini_response :: "Response \<Rightarrow> error + json" where
  "callGemini_response response =
     (if \<not> ok response then
        (let errData = (case body response of Some v \<Rightarrow> v | None \<Rightarrow> JObj []) in
         case strict_prop errData ''error'' of
           Inl e \<Rightarrow> Inl e
         | Inr err \<Rightarrow>
             (let message = opt_prop err ''message'' in
              if truthy_js message then Inl (Error (the message))
              else Inl (Error (JStr (''Gemini API Error: '' @ toString (status response))))))
      else
        (case body response of
           None \<Rightarrow> Inl SyntaxError
         | Some data \<Rightarrow>
             (case strict_prop data ''candidates'' of
                Inl e \<Rightarrow> Inl e
              | Inr candidates \<Rightarrow>
                  (let text =
                         opt_prop (opt_index0 (opt_prop (opt_prop (opt_index0 candidates)
                           ''content'') ''parts'')) ''text''
                   in if truthy_js text then Inr (the text) else Inr (JStr [])))))"

definition callGemini ::
  "World \<Rightarrow> Content list \<Rightarrow> EngineConfig \<Rightarrow> string option \<Rightarrow> Override option
     \<Rightarrow> Request list \<times> (error + json)" where
  "callGemini w cs config systemInstruction' override =
     (let request = callGemini_request w cs config systemInstruction' override in
      ([request],
       case fetch w request of Inl e \<Rightarrow> Inl e | Inr response \<Rightarrow> callGemini_response response))"

text \<open>In JSON mode the first message is amended in place, so the body sent holds the
  amended text. \<open>messages[0]\<close> is \<open>undefined\<close> when there is no message at all.\<close>

definition callOpenAI_request ::
  "World \<Rightarrow> Content list \<Rightarrow> EngineConfig \<Rightarrow> string option \<Rightarrow> Override option
     \<Rightarrow> error + Request" where
  "callOpenAI_request w cs config systemInstruction' override =
     (let messages0 = mapGeminiToOpenAI cs systemInstruction';
          jsonMode =
            (case override of
               Some ov \<Rightarrow> ov_responseMimeType ov = Some ''application/json''
             | None \<Rightarrow> False);
          messages1 =
            (if jsonMode then
               (case messages0 of
                  [] \<Rightarrow> Inl TypeError
                | m # ms \<Rightarrow>
                    (if \<not> includes_str (m_content m) ''JSON''
                     then Inr (m\<lparr>m_content := m_content m
                                  @ [CHR 0x0A] @ ''IMPORTANT: Output strictly in JSON format.''\<rparr> # ms)
                     else Inr (m # ms)))
             else Inr messages0)
      in case messages1 of
           Inl e \<Rightarrow> Inl e
         | Inr ms \<Rightarrow>
             Inr \<lparr>endpoint = getOpenAIEndpoint w config,
                  r_body = ToOpenAI
                    \<lparr>o_model = or_else (model config) ''deepseek-ai/DeepSeek-V3'',
                     messages = ms,
                     o_temperature = temperature config\<rparr>\<rparr>)"

definition callOpenAI_response :: "World \<Rightarrow> Response \<Rightarrow> error + json" where
  "callOpenAI_response w response =
     (if \<not> ok response then
        (let errData = (case body response of Some v \<Rightarrow> v | None \<Rightarrow> JObj []) in
         case strict_prop errData ''error'' of
           Inl e \<Rightarrow> Inl e
         | Inr err \<Rightarrow>
             (let message = opt_prop err ''message'' in
              if truthy_js message then Inl (Error (the message))
              else Inl (Error (JStr (''OpenAI API Error: '' @ toString (status response)
                                       @ '' - '' @ JSON_stringify w errData)))))
      else
        (case body response of
           None \<Rightarrow> Inl SyntaxError
         | Some data \<Rightarrow>
             (case strict_prop data ''choices'' of
                Inl e \<Rightarrow> Inl e
              | Inr choices \<Rightarrow>
                  (let text = opt_prop (opt_prop (opt_index0 choices) ''message'') ''content''
                   in if truthy_js text then Inr (the text) else Inr (JStr [])))))"

definition callOpenAI ::
  "World \<Rightarrow> Content list \<Rightarrow> EngineConfig \<Rightarrow> string option \<Rightarrow> Override option
     \<Rightarrow> Request list \<times> (error + json)" where
  "callOpenAI w cs config systemInstruction' override =
     (case callOpenAI_request w cs config systemInstruction' override of
        Inl e \<Rightarrow> ([], Inl e)
      | Inr request \<Rightarrow>
          ([request],
           case fetch w request of
             Inl e \<Rightarrow> Inl e
           | Inr response \<Rightarrow> callOpenAI_response w response))"

subsection \<open>Router\<close>

definition callAI ::
  "World \<Rightarrow> Content list \<Rightarrow> EngineConfig \<Rightarrow> string option \<Rightarrow> Override option
     \<Rightarrow> Request list \<times> (error + json)" where
  "callAI w cs config systemInstruction' override =
     (if provider config = OpenAI
      then callOpenAI w cs config systemInstruction' override
      else callGemini w cs config systemInstruction' override)"

subsection \<open>Exported operations\<close>

text \<open>\<open>summarizeTopic\<close>: the requests sent and the topic returned; an error of \<open>callAI\<close>
  propagates.\<close>

definition summarizeTopic ::
  "World \<Rightarrow> string \<Rightarrow> string \<Rightarrow> EngineConfig \<Rightarrow> Request list \<times> (error + string)" where
  "summarizeTopic w textSelection' comment' engine =
     (let (sent, r) =
            callAI w [\<lparr>role = ''user'', parts = [''Topic for: \"'' @ comment' @ ''\"'']\<rparr>]
              engine None
              (Some \<lparr>ov_temperature = Some (3 / 10), ov_responseMimeType = None\<rparr>)
      in (sent,
          case r of
            Inl e \<Rightarrow> Inl e
          | Inr text \<Rightarrow>
              (case asString text of
                 Inl e \<Rightarrow> Inl e
               | Inr s \<Rightarrow> Inr (or_else (trim s) ''Thought''))))"

text \<open>
  \<open>generateSoulReport\<close> and \<open>autonomousScan\<close> from the point where \<open>callAI\<close> has settled:
  \<open>aiText\<close> is what it resolved to, or what it threw. \<open>parseStructured\<close> is the expression
  \<open>JSON.parse(cleanJSON(text))\<close> both share; everything thrown inside the \<open>try\<close> block
  ends in the default value.
\<close>

definition parseStructured :: "World \<Rightarrow> error + json \<Rightarrow> error + json" where
  "parseStructured w aiText =
     (case aiText of
        Inl e \<Rightarrow> Inl e
      | Inr text \<Rightarrow>
          (case asString text of Inl e \<Rightarrow> Inl e | Inr s \<Rightarrow> JSON_parse w (cleanJSON s)))"

definition defaultSoulReport :: json where
  "defaultSoulReport =
     JObj [(''summary'', JStr ''A quiet exchange of minds.''),
           (''keywords'', JArr [JStr ''Thought'']),
           (''highlightTopics'', JArr [JStr ''General''])]"

text \<open>\<open>return JSON.parse(...)\<close> inside \<open>try\<close>, the default inside \<open>catch\<close>.\<close>

definition soulReport_return :: "error + json \<Rightarrow> json" where
  "soulReport_return parsed = (case parsed of Inr v \<Rightarrow> v | Inl e \<Rightarrow> defaultSoulReport)"

definition generateSoulReport_from :: "World \<Rightarrow> error + json \<Rightarrow> json" where
  "generateSoulReport_from w aiText = soulReport_return (parseStructured w aiText)"

text \<open>\<open>Array.isArray(result) ? result : [result]\<close> inside \<open>try\<close>, \<open>[]\<close> inside \<open>catch\<close>.\<close>

definition scan_return :: "error + json \<Rightarrow> json list" where
  "scan_return parsed =
     (case parsed of
        Inr result \<Rightarrow> (case result of JArr xs \<Rightarrow> xs | _ \<Rightarrow> [result])
      | Inl e \<Rightarrow> [])"

definition autonomousScan_from :: "World \<Rightarrow> error + json \<Rightarrow> json list" where
  "autonomousScan_from w aiText = scan_return (parseStructured w aiText)"

section \<open>The controller's state (App component)\<close>

text \<open>
  The React state cells and refs of the top-level component that the scan and memory
  policies read or write. \<open>lastScannedPage\<close> is \<open>lastScannedPageRef.current\<close> (initially
  \<open>null\<close>), \<open>lastConsolidatedCount\<close> is \<open>lastConsolidatedCountRef.current\<close> (initially 0).
  \<open>process.env.API_KEY\<close> is a parameter \<open>env\<close> of the operations that read it.
\<close>

record App =
  library :: "Book list"
  annotations :: "Annotation list"
  activeBookId :: "string option"
  persona :: Persona
  customPersonas :: "Persona list"
  engineConfig :: EngineConfig
  isAutoScanning :: bool
  lastScannedPage :: "string option"
  lastConsolidatedCount :: nat
  progress :: nat

definition activeBook :: "App \<Rightarrow> Book option" where
  "activeBook st = find (\<lambda>b. Some (b_id b) = activeBookId st) (library st)"

text \<open>\<open>annotations.filter(a => a.bookId === activeBookId).sort((a,b) => b.timestamp - a.timestamp)\<close>:
  the sort is stable and descending in the timestamp.\<close>

definition bookAnnotations :: "App \<Rightarrow> Annotation list" where
  "bookAnnotations st =
     sort_key (\<lambda>a. - int (timestamp a))
       (filter (\<lambda>a. Some (bookId a) = activeBookId st) (annotations st))"

text \<open>\<open>engineConfig.apiKey || process.env.API_KEY\<close> as a condition.\<close>

definition hasApiKey :: "string option \<Rightarrow> EngineConfig \<Rightarrow> bool" where
  "hasApiKey env cfg = (truthy (apiKey cfg) \<or> truthy_opt env)"

subsection \<open>Auto-memory effect\<close>

text \<open>
  The condition of the effect, on the values it reads: the configuration, the
  environment key, the active book, \<open>bookAnnotations.length\<close> and the ref.
\<close>

definition shouldConsolidate ::
  "EngineConfig \<Rightarrow> string option \<Rightarrow> Book option \<Rightarrow> nat \<Rightarrow> nat \<Rightarrow> bool" where
  "shouldConsolidate cfg env book n lastc =
     (autoMemoryThreshold cfg > 0 \<and>
      book \<noteq> None \<and>
      n > 0 \<and>
      int n mod autoMemoryThreshold cfg = 0 \<and>
      n \<noteq> lastc \<and>
      hasApiKey env cfg)"

text \<open>
  One run of the effect body up to the call of \<open>runAutoMemory\<close>: whether consolidation is
  started, and the ref afterwards. The ref is assigned before the asynchronous call.
\<close>

definition observe ::
  "EngineConfig \<Rightarrow> string option \<Rightarrow> Book option \<Rightarrow> nat \<Rightarrow> nat \<Rightarrow> bool \<times> nat" where
  "observe cfg env book n lastc =
     (if shouldConsolidate cfg env book n lastc then (True, n) else (False, lastc))"

text \<open>The effect re-run on each of a sequence of observed annotation counts: which runs
  started a consolidation.\<close>

fun observeAll ::
  "EngineConfig \<Rightarrow> string option \<Rightarrow> Book option \<Rightarrow> nat \<Rightarrow> nat list \<Rightarrow> bool list" where
  "observeAll cfg env book lastc [] = []"
| "observeAll cfg env book lastc (n # ns) =
     fst (observe cfg env book n lastc)
       # observeAll cfg env book (snd (observe cfg env book n lastc)) ns"

text \<open>The effect on the component's state: the persona captured by the started task (if
  one is started) and the state with the ref updated.\<close>

definition autoMemoryEffect :: "string option \<Rightarrow> App \<Rightarrow> Persona option \<times> App" where
  "autoMemoryEffect env st =
     (case observe (engineConfig st) env (activeBook st) (length (bookAnnotations st))
             (lastConsolidatedCount st) of
        (True, lastc') \<Rightarrow> (Some (persona st), st\<lparr>lastConsolidatedCount := lastc'\<rparr>)
      | (False, lastc') \<Rightarrow> (None, st\<lparr>lastConsolidatedCount := lastc'\<rparr>))"

text \<open>
  The completion of \<open>runAutoMemory\<close>: \<open>outcome\<close> is what \<open>consolidateMemory\<close> resolved to
  (\<^const>\<open>Inr\<close> the new memory text) or threw (\<^const>\<open>Inl\<close>); \<open>p\<close> is the persona the task
  captured. The test \<open>updatedPersona.id === persona.id\<close> compares the copy with the
  captured persona itself. A failure is logged and changes nothing.
\<close>

definition runAutoMemory :: "Persona \<Rightarrow> error + string \<Rightarrow> App \<Rightarrow> App" where
  "runAutoMemory p outcome st =
     (case outcome of
        Inl e \<Rightarrow> st
      | Inr newMemory \<Rightarrow>
          (let updatedPersona = p\<lparr>longTermMemory := Some newMemory\<rparr> in
           st\<lparr>persona := (if p_id updatedPersona = p_id p then updatedPersona else persona st),
              customPersonas :=
                map (\<lambda>q. if p_id q = p_id updatedPersona then updatedPersona else q)
                  (customPersonas st)\<rparr>))"

subsection \<open>Autonomous scan on a page change\<close>

text \<open>An element of the array \<open>autonomousScan\<close> resolves to, at its declared type.\<close>

record ScanResult =
  r_textSelection :: string
  r_comment :: string
  r_topic :: string

text \<open>
  The annotation both scan handlers build from the result at index \<open>idx\<close>. \<open>now idx\<close> is the
  reading of \<open>Date.now()\<close> while that result is handled.
\<close>

definition autoAnnotation :: "(nat \<Rightarrow> nat) \<Rightarrow> string \<Rightarrow> Persona \<Rightarrow> nat \<Rightarrow> ScanResult \<Rightarrow> Annotation" where
  "autoAnnotation now bookId' p idx r =
     \<lparr>a_id = toString (now idx + idx),
      bookId = bookId',
      textSelection = r_textSelection r,
      comment = r_comment r,
      author = AI,
      timestamp = now idx,
      personaId = Some (p_id p),
      topic = Some (r_topic r),
      isAutonomous = Some True,
      startOffset = 0,
      endOffset = 0,
      chatHistory = None\<rparr>"

text \<open>What the asynchronous part of \<open>handlePageChange\<close> holds on to across its \<open>await\<close>.\<close>

record ScanTask =
  existingSelections :: "string list"
  task_bookId :: string
  task_persona :: Persona
  task_content :: string

text \<open>
  \<open>handlePageChange\<close> up to its \<open>await\<close>: the task started (\<^const>\<open>None\<close> when a guard
  returns early) and the state. \<open>task_content\<close> is the page passed to \<open>autonomousScan\<close>.
\<close>

definition handlePageChange_start ::
  "string option \<Rightarrow> string \<Rightarrow> nat \<Rightarrow> App \<Rightarrow> ScanTask option \<times> App" where
  "handlePageChange_start env content' p st =
     (let st1 = st\<lparr>progress := p\<rparr> in
      if \<not> autonomousReading (engineConfig st) \<or> \<not> truthy_opt (activeBookId st)
           \<or> isAutoScanning st \<or> lastScannedPage st = Some content'
      then (None, st1)
      else if \<not> truthy (apiKey (engineConfig st)) \<and> \<not> truthy_opt env
      then (None, st1)
      else
        (Some \<lparr>existingSelections = map textSelection (bookAnnotations st),
               task_bookId = the (activeBookId st),
               task_persona = persona st,
               task_content = content'\<rparr>,
         st1\<lparr>isAutoScanning := True, lastScannedPage := Some content'\<rparr>))"

text \<open>The \<open>forEach\<close> over the results: \<open>newAnnos\<close>.\<close>

definition newAnnotations :: "(nat \<Rightarrow> nat) \<Rightarrow> ScanTask \<Rightarrow> ScanResult list \<Rightarrow> Annotation list" where
  "newAnnotations now task results =
     map (\<lambda>(idx, r). autoAnnotation now (task_bookId task) (task_persona task) idx r)
       (filter (\<lambda>(idx, r). r_textSelection r \<notin> set (existingSelections task))
          (enumerate 0 results))"

text \<open>
  \<open>handlePageChange\<close> after its \<open>await\<close>: \<open>outcome\<close> is what \<open>autonomousScan\<close> resolved to,
  or threw; \<open>st\<close> is the state at that moment (\<open>setAnnotations(prev => ...)\<close>).
\<close>

definition handlePageChange_finish ::
  "(nat \<Rightarrow> nat) \<Rightarrow> ScanTask \<Rightarrow> error + ScanResult list \<Rightarrow> App \<Rightarrow> App" where
  "handlePageChange_finish now task outcome st =
     (case outcome of
        Inl e \<Rightarrow> st\<lparr>isAutoScanning := False\<rparr>
      | Inr results \<Rightarrow>
          (let newAnnos = newAnnotations now task results in
           (if newAnnos \<noteq> [] then st\<lparr>annotations := newAnnos @ annotations st\<rparr> else st)
             \<lparr>isAutoScanning := False\<rparr>))"

subsection \<open>Saving a book written in the studio\<close>



subsection \<open>A reading session\<close>

text \<open>
  The page-change handler driven by a sequence of events: the reader reports a page, or
  the scan in flight settles. \<open>scanned\<close> lists, in order, the page contents for which a
  scan was started.
\<close>

datatype Event = PageChange string nat | ScanSettled "error + ScanResult list"

record Session =
  app :: App
  pending :: "ScanTask option"
  scanned :: "string list"

fun step :: "string option \<Rightarrow> (nat \<Rightarrow> nat) \<Rightarrow> Session \<Rightarrow> Event \<Rightarrow> Session" where
  "step env now s (PageChange content' p) =
     (case handlePageChange_start env content' p (app s) of
        (None, st') \<Rightarrow> s\<lparr>app := st'\<rparr>
      | (Some task, st') \<Rightarrow>
          s\<lparr>app := st', pending := Some task, scanned := scanned s @ [task_content task]\<rparr>)"
| "step env now s (ScanSettled outcome) =
     (case pending s of
        None \<Rightarrow> s
      | Some task \<Rightarrow>
          s\<lparr>app := handlePageChange_finish now task outcome (app s), pending := None\<rparr>)"

definition run :: "string option \<Rightarrow> (nat \<Rightarrow> nat) \<Rightarrow> Session \<Rightarrow> Event list \<Rightarrow> Session" where
  "run env now s events = foldl (step env now) s events"

section \<open>Observations and invariants\<close>

text \<open>The number of places at which \<open>t\<close> occurs in \<open>s\<close>.\<close>

fun count_str :: "string \<Rightarrow> string \<Rightarrow> nat" where
  "count_str [] t = (if t = [] then 1 else 0)"
| "count_str (c # s) t = (if startsWith (c # s) t then 1 else 0) + count_str s t"

text \<open>What a request carries: the temperature in its body, and the messages of a
  family-B body.\<close>

definition sentTemperature :: "Request \<Rightarrow> real" where
  "sentTemperature rq =
     (case r_body rq of
        ToGemini b \<Rightarrow> gc_temperature (generationConfig b)
      | ToOpenAI b \<Rightarrow> o_temperature b)"

definition sentMessages :: "Request \<Rightarrow> Message list" where
  "sentMessages rq = (case r_body rq of ToGemini b \<Rightarrow> [] | ToOpenAI b \<Rightarrow> messages b)"

text \<open>The invariant of a session: no page is scanned twice in a row, and the ref holds
  the page scanned last.\<close>

definition scan_inv :: "Session \<Rightarrow> bool" where
  "scan_inv s = (distinct_adj (scanned s)
     \<and> (scanned s = [] \<or> lastScannedPage (app s) = Some (last (scanned s))))"

section \<open>Concrete configurations and states\<close>

text \<open>Values at which the theorems below are instantiated.\<close>

definition persona0 :: Persona where
  "persona0 = \<lparr>p_id = ''socrates'', p_name = ''Socrates'',
     systemInstruction = ''You are Socrates.'', longTermMemory = None\<rparr>"

definition config0 :: EngineConfig where
  "config0 = \<lparr>provider = Gemini, baseUrl = ''https://generativelanguage.googleapis.com'',
     apiKey = ''k'', model = ''gemini-3-flash-preview'', temperature = 7 / 10,
     autoMemoryThreshold = 50, autonomousReading = True, autoAnnotationCount = 2\<rparr>"

definition book0 :: Book where
  "book0 = \<lparr>b_id = ''b1'', title = ''Phaedo'', content = ''p1'', b_author = None,
     category = ''Philosophy'', addedAt = 0, timeSpent = 0, isOriginal = None\<rparr>"

definition anno0 :: "string \<Rightarrow> Annotation" where
  "anno0 sel = \<lparr>a_id = ''1'', bookId = ''b1'', textSelection = sel, comment = ''hm'',
     author = AI, timestamp = 1, personaId = None, topic = None, isAutonomous = None,
     startOffset = 0, endOffset = 0, chatHistory = None\<rparr>"

definition app0 :: "EngineConfig \<Rightarrow> Annotation list \<Rightarrow> App" where
  "app0 cfg annos = \<lparr>library = [book0], annotations = annos, activeBookId = Some ''b1'',
     persona = persona0, customPersonas = [], engineConfig = cfg, isAutoScanning = False,
     lastScannedPage = None, lastConsolidatedCount = 0, progress = 0\<rparr>"

definition clock0 :: "nat \<Rightarrow> nat" where
  "clock0 idx = 1700000000000"


definition appXY :: App where
  "appXY = app0 config0 [anno0 ''X'', anno0 ''Y'']"

definition taskXY :: ScanTask where
  "taskXY = \<lparr>existingSelections = [''X'', ''Y''], task_bookId = ''b1'',
     task_persona = persona0, task_content = ''page one''\<rparr>"

definition session0 :: Session where
  "session0 = \<lparr>app = app0 config0 [], pending = None, scanned = []\<rparr>"

text \<open>A family-B configuration with a given base URL.\<close>

definition openaiConfig :: "string \<Rightarrow> EngineConfig" where
  "openaiConfig b = config0\<lparr>provider := OpenAI, baseUrl := b\<rparr>"

text \<open>A world with no environment key and no network.\<close>

definition world0 :: World where
  "world0 = \<lparr>API_KEY = None, JSON_stringify = (\<lambda>v. []),
     JSON_parse = (\<lambda>s. Inl SyntaxError), fetch = (\<lambda>rq. Inl NetworkError)\<rparr>"

text \<open>The same world with \<open>JSON.parse\<close> given on four texts: an object, the one-element
  array holding it, an object whose member is a string of three backquotes, and that
  object with the empty string instead; every other text used below is not JSON.\<close>

definition world1 :: World where
  "world1 = world0\<lparr>JSON_parse :=
     (\<lambda>s. if s = ''{\"a\":1}'' then Inr (JObj [(''a'', JNum 1)])
          else if s = ''[{\"a\":1}]'' then Inr (JArr [JObj [(''a'', JNum 1)]])
          else if s = ''{\"a\":\"```\"}'' then Inr (JObj [(''a'', JStr ''```'')])
          else if s = ''{\"a\":\"\"}'' then Inr (JObj [(''a'', JStr [])])
          else Inl SyntaxError)\<rparr>"

text \<open>The error body both providers send: \<open>{"error": {"message": msg}}\<close>.\<close>

definition providerError :: "string \<Rightarrow> json" where
  "providerError msg = JObj [(''error'', JObj [(''message'', JStr msg)])]"

section \<open>Properties of the memory consolidation scheduler\<close>

lemma length_bookAnnotations:
  "length (bookAnnotations st)
     = length (filter (\<lambda>a. Some (bookId a) = activeBookId st) (annotations st))"
  by (simp add: bookAnnotations_def)

lemma bookAnnotations_runAutoMemory [simp]:
  "bookAnnotations (runAutoMemory p outcome st) = bookAnnotations st"
  by (cases outcome) (simp_all add: runAutoMemory_def bookAnnotations_def Let_def)

lemma activeBook_runAutoMemory [simp]:
  "activeBook (runAutoMemory p outcome st) = activeBook st"
  by (cases outcome) (simp_all add: runAutoMemory_def activeBook_def Let_def)

lemma engineConfig_runAutoMemory [simp]:
  "engineConfig (runAutoMemory p outcome st) = engineConfig st"
  by (cases outcome) (simp_all add: runAutoMemory_def Let_def)

lemma lastConsolidatedCount_runAutoMemory [simp]:
  "lastConsolidatedCount (runAutoMemory p outcome st) = lastConsolidatedCount st"
  by (cases outcome) (simp_all add: runAutoMemory_def Let_def)

lemma bookAnnotations_ref [simp]:
  "bookAnnotations (st\<lparr>lastConsolidatedCount := k\<rparr>) = bookAnnotations st"
  by (simp add: bookAnnotations_def)

lemma activeBook_ref [simp]:
  "activeBook (st\<lparr>lastConsolidatedCount := k\<rparr>) = activeBook st"
  by (simp add: activeBook_def)

lemma effect_fired:
  assumes "autoMemoryEffect env st = (Some p, st')"
  shows "p = persona st" and "st' = st\<lparr>lastConsolidatedCount := length (bookAnnotations st)\<rparr>"
  using assms by (auto simp add: autoMemoryEffect_def observe_def split: if_splits)

lemma length_bookAnnotations_app0 [simp]:
  "length (bookAnnotations (app0 cfg (replicate n (anno0 sel)))) = n"
  by (simp add: length_bookAnnotations app0_def anno0_def)

lemma activeBook_app0 [simp]: "activeBook (app0 cfg annos) = Some book0"
  by (simp add: activeBook_def app0_def book0_def)

lemma effect_app0_50:
  "autoMemoryEffect None (app0 config0 (replicate 50 (anno0 ''X'')))
     = (Some persona0, (app0 config0 (replicate 50 (anno0 ''X'')))\<lparr>lastConsolidatedCount := 50\<rparr>)"
  by (simp add: autoMemoryEffect_def observe_def shouldConsolidate_def hasApiKey_def truthy_def)
     (simp add: app0_def config0_def)

text \<open>
  Claim C1, as amended. When the effect starts a consolidation at the observed count, the
  ref \<open>lastConsolidatedCount\<close> already holds that count before the outcome is known, and it
  holds it after the task has settled, whether the consolidation succeeded or failed.
  Running the effect again on the settled state, with the same count and configuration,
  starts nothing: a failed consolidation is not retried at the same count.
\<close>

theorem C1_ref_set_when_fired:
  assumes "autoMemoryEffect env st = (Some p, st')"
  shows "lastConsolidatedCount st' = length (bookAnnotations st)
       \<and> lastConsolidatedCount (runAutoMemory p outcome st') = length (bookAnnotations st)
       \<and> fst (autoMemoryEffect env (runAutoMemory p outcome st')) = None"
  using effect_fired [OF assms]
  by (simp add: autoMemoryEffect_def observe_def shouldConsolidate_def)

text \<open>The theorem at a book with 50 annotations, threshold 50, and a failed consolidation.\<close>

theorem C1_witness:
  "autoMemoryEffect None (app0 config0 (replicate 50 (anno0 ''X'')))
     = (Some persona0, (app0 config0 (replicate 50 (anno0 ''X'')))\<lparr>lastConsolidatedCount := 50\<rparr>)
   \<and> lastConsolidatedCount
        (runAutoMemory persona0 (Inl NetworkError)
          ((app0 config0 (replicate 50 (anno0 ''X'')))\<lparr>lastConsolidatedCount := 50\<rparr>)) = 50
   \<and> fst (autoMemoryEffect None
        (runAutoMemory persona0 (Inl NetworkError)
          ((app0 config0 (replicate 50 (anno0 ''X'')))\<lparr>lastConsolidatedCount := 50\<rparr>))) = None"
  using C1_ref_set_when_fired [OF effect_app0_50, of "Inl NetworkError"] effect_app0_50
  by simp

text \<open>
  Claim C1 as stated fails: the ref is 0, the effect fires at 50 annotations, the
  consolidation fails, and the ref is 50 afterwards; the same count observed again does
  not fire.
\<close>

theorem C1_counterexample:
  "lastConsolidatedCount (app0 config0 (replicate 50 (anno0 ''X''))) = 0
   \<and> fst (autoMemoryEffect None (app0 config0 (replicate 50 (anno0 ''X'')))) = Some persona0
   \<and> lastConsolidatedCount
        (runAutoMemory persona0 (Inl NetworkError)
          (snd (autoMemoryEffect None (app0 config0 (replicate 50 (anno0 ''X'')))))) = 50
   \<and> fst (autoMemoryEffect None
        (runAutoMemory persona0 (Inl NetworkError)
          (snd (autoMemoryEffect None (app0 config0 (replicate 50 (anno0 ''X''))))))) = None"
  by (simp add: effect_app0_50 autoMemoryEffect_def observe_def shouldConsolidate_def
        hasApiKey_def truthy_def config0_def)
     (simp add: app0_def)

text \<open>
  Claim C2, as amended. The effect starts a consolidation exactly when the threshold is
  positive, an active book exists, its annotation count is positive and divisible by the
  threshold, the count differs from \<open>lastConsolidatedCount\<close>, and an API key is configured
  (in the settings or in the environment). With a book open, a key configured and a
  threshold \<open>t > 0\<close> not yet consolidated at, the counts \<open>t - 1\<close>, \<open>t\<close>, \<open>t\<close>, \<open>2 t\<close> observed
  in this order start a consolidation at the second and the fourth observation only:
  for \<open>t = 50\<close>, 49 to 50 triggers one, 50 observed again triggers none, 50 to 100
  triggers one more.
\<close>

theorem C2_fires_iff_with_book_and_key:
  "(fst (autoMemoryEffect env st) \<noteq> None \<longleftrightarrow>
      (0 < autoMemoryThreshold (engineConfig st) \<and> activeBook st \<noteq> None \<and>
       0 < length (bookAnnotations st) \<and>
       int (length (bookAnnotations st)) mod autoMemoryThreshold (engineConfig st) = 0 \<and>
       length (bookAnnotations st) \<noteq> lastConsolidatedCount st \<and>
       hasApiKey env (engineConfig st)))
   \<and> (autoMemoryThreshold cfg = int t \<and> 0 < t \<and> book \<noteq> None \<and> hasApiKey env cfg \<and> lastc \<noteq> t
        \<longrightarrow> observeAll cfg env book lastc [t - 1, t, t, 2 * t] = [False, True, False, True])"
proof (intro conjI impI)
  show "fst (autoMemoryEffect env st) \<noteq> None \<longleftrightarrow>
      (0 < autoMemoryThreshold (engineConfig st) \<and> activeBook st \<noteq> None \<and>
       0 < length (bookAnnotations st) \<and>
       int (length (bookAnnotations st)) mod autoMemoryThreshold (engineConfig st) = 0 \<and>
       length (bookAnnotations st) \<noteq> lastConsolidatedCount st \<and>
       hasApiKey env (engineConfig st))"
    by (auto simp add: autoMemoryEffect_def observe_def shouldConsolidate_def)
next
  assume h: "autoMemoryThreshold cfg = int t \<and> 0 < t \<and> book \<noteq> None \<and> hasApiKey env cfg \<and> lastc \<noteq> t"
  then show "observeAll cfg env book lastc [t - 1, t, t, 2 * t] = [False, True, False, True]"
    by (auto simp add: observe_def shouldConsolidate_def)
qed

text \<open>The theorem at threshold 50 with a key configured: the sequence 49, 50, 50, 100.\<close>

theorem C2_witness:
  "fst (autoMemoryEffect None (app0 config0 (replicate 50 (anno0 ''X'')))) \<noteq> None
   \<and> observeAll config0 None (Some book0) 0 [49, 50, 50, 100] = [False, True, False, True]"
proof -
  have h: "autoMemoryThreshold config0 = int 50 \<and> (0::nat) < 50 \<and> Some book0 \<noteq> None
        \<and> hasApiKey None config0 \<and> (0::nat) \<noteq> 50"
    by (simp add: config0_def hasApiKey_def truthy_def)
  have c: "0 < autoMemoryThreshold (engineConfig (app0 config0 (replicate 50 (anno0 ''X''))))
      \<and> hasApiKey None (engineConfig (app0 config0 (replicate 50 (anno0 ''X''))))
      \<and> lastConsolidatedCount (app0 config0 (replicate 50 (anno0 ''X''))) = 0
      \<and> autoMemoryThreshold (engineConfig (app0 config0 (replicate 50 (anno0 ''X'')))) = 50"
    by (simp add: app0_def config0_def hasApiKey_def truthy_def)
  show ?thesis
    using C2_fires_iff_with_book_and_key
            [of None "app0 config0 (replicate 50 (anno0 ''X''))" config0 50 "Some book0" 0] h c
    by simp
qed

text \<open>
  Claim C2 as stated fails where no API key is configured: the threshold is 50, the
  active book has 50 annotations, 50 is divisible by 50 and differs from the ref 0, and yet
  nothing is started; the sequence 49, 50, 50, 100 triggers no consolidation at all.
\<close>

theorem C2_counterexample:
  "0 < autoMemoryThreshold (config0\<lparr>apiKey := []\<rparr>)
   \<and> activeBook (app0 (config0\<lparr>apiKey := []\<rparr>) (replicate 50 (anno0 ''X''))) = Some book0
   \<and> length (bookAnnotations (app0 (config0\<lparr>apiKey := []\<rparr>) (replicate 50 (anno0 ''X'')))) = 50
   \<and> int 50 mod autoMemoryThreshold (config0\<lparr>apiKey := []\<rparr>) = 0
   \<and> lastConsolidatedCount (app0 (config0\<lparr>apiKey := []\<rparr>) (replicate 50 (anno0 ''X''))) = 0
   \<and> fst (autoMemoryEffect None (app0 (config0\<lparr>apiKey := []\<rparr>) (replicate 50 (anno0 ''X'')))) = None
   \<and> observeAll (config0\<lparr>apiKey := []\<rparr>) None (Some book0) 0 [49, 50, 50, 100]
        = [False, False, False, False]"
  by (simp add: autoMemoryEffect_def observe_def shouldConsolidate_def hasApiKey_def
        truthy_def truthy_opt_def config0_def)
     (simp add: app0_def)

section \<open>Properties of the autonomous scan policy\<close>

lemma textSelection_autoAnnotation [simp]:
  "textSelection (autoAnnotation now b p idx r) = r_textSelection r"
  by (simp add: autoAnnotation_def)





lemma start_task:
  assumes "handlePageChange_start env c p st = (Some task, st1)"
  shows "existingSelections task = map textSelection (bookAnnotations st)"
    and "task_content task = c"
    and "lastScannedPage st \<noteq> Some c"
    and "lastScannedPage st1 = Some c"
    and "\<not> isAutoScanning st"
    and "isAutoScanning st1"
    and "Some (task_bookId task) = activeBookId st"
  using assms
  by (auto simp add: handlePageChange_start_def Let_def truthy_opt_def split: if_splits option.splits)



lemma bookAnnotations_appXY: "bookAnnotations appXY = [anno0 ''X'', anno0 ''Y'']"
  by (simp add: bookAnnotations_def appXY_def app0_def anno0_def)

lemma start_appXY:
  "handlePageChange_start None ''page one'' 10 appXY
     = (Some taskXY,
        appXY\<lparr>progress := 10, isAutoScanning := True, lastScannedPage := Some ''page one''\<rparr>)"
  by (simp add: handlePageChange_start_def bookAnnotations_appXY taskXY_def Let_def)
     (simp add: appXY_def app0_def config0_def truthy_def truthy_opt_def anno0_def)






lemma lastScannedPage_finish [simp]:
  "lastScannedPage (handlePageChange_finish now task outcome st) = lastScannedPage st"
  by (cases outcome) (simp_all add: handlePageChange_finish_def Let_def)

lemma start_none:
  assumes "handlePageChange_start env c p st = (None, st1)"
  shows "lastScannedPage st1 = lastScannedPage st"
  using assms by (auto simp add: handlePageChange_start_def Let_def split: if_splits)

lemma scan_inv_step:
  assumes "scan_inv s"
  shows "scan_inv (step env now s e)"
proof (cases e)
  case (PageChange c p)
  show ?thesis
  proof (cases "handlePageChange_start env c p (app s)")
    case (Pair t st1)
    show ?thesis
    proof (cases t)
      case None
      then show ?thesis
        using assms PageChange Pair start_none [of env c p "app s" st1]
        by (simp add: scan_inv_def)
    next
      case (Some task)
      have st: "handlePageChange_start env c p (app s) = (Some task, st1)"
        using Pair Some by simp
      have "scanned s = [] \<or> last (scanned s) \<noteq> c"
        using assms start_task(3) [OF st] by (auto simp add: scan_inv_def)
      then have "distinct_adj (scanned s @ [c])"
        using assms by (auto simp add: scan_inv_def distinct_adj_append_iff)
      then show ?thesis
        using PageChange st start_task(2) [OF st] start_task(4) [OF st]
        by (simp add: scan_inv_def)
    qed
  qed
next
  case (ScanSettled outcome)
  then show ?thesis
    using assms by (cases "pending s") (simp_all add: scan_inv_def)
qed

lemma scan_inv_run:
  "scan_inv s \<Longrightarrow> scan_inv (run env now s events)"
  unfolding run_def
  by (induction events arbitrary: s) (simp_all add: scan_inv_step)

text \<open>
  Claim C9, as amended. Over every sequence of page changes and settled scans of a
  session, no two scans started in a row are for the same page content: a scan is started
  only for a page that differs from the page scanned last, and starting it makes that page
  the last one, so that the same page reported again starts nothing.
\<close>

theorem C9_no_rescan_of_last_scanned_page:
  "(scanned s = [] \<longrightarrow> distinct_adj (scanned (run env now s events)))
   \<and> (handlePageChange_start env pageContent p st = (Some task, st1)
        \<longrightarrow> lastScannedPage st \<noteq> Some pageContent \<and> lastScannedPage st1 = Some pageContent
            \<and> fst (handlePageChange_start env pageContent p' st1) = None)"
proof (intro conjI impI)
  assume "scanned s = []"
  then have "scan_inv s" by (simp add: scan_inv_def)
  then show "distinct_adj (scanned (run env now s events))"
    using scan_inv_run [of s env now events] by (simp add: scan_inv_def)
next
  assume h: "handlePageChange_start env pageContent p st = (Some task, st1)"
  show "lastScannedPage st \<noteq> Some pageContent" by (rule start_task(3) [OF h])
  show "lastScannedPage st1 = Some pageContent" by (rule start_task(4) [OF h])
  then show "fst (handlePageChange_start env pageContent p' st1) = None"
    by (simp add: handlePageChange_start_def Let_def)
qed

lemma run_session0_ABA:
  "scanned (run None clock0 session0
      [PageChange ''page A'' 10, ScanSettled (Inr []),
       PageChange ''page B'' 20, ScanSettled (Inr []),
       PageChange ''page A'' 10])
     = [''page A'', ''page B'', ''page A'']"
  by (simp add: run_def session0_def handlePageChange_start_def handlePageChange_finish_def
        newAnnotations_def Let_def app0_def config0_def truthy_def truthy_opt_def)

text \<open>
  Claim C9 as stated fails: page A is scanned, then page B, and when the reader returns to
  page A it is scanned a second time.
\<close>

theorem C9_counterexample:
  "count_list (scanned (run None clock0 session0
      [PageChange ''page A'' 10, ScanSettled (Inr []),
       PageChange ''page B'' 20, ScanSettled (Inr []),
       PageChange ''page A'' 10])) ''page A'' = 2"
  by (simp add: run_session0_ABA)

text \<open>The theorem at the session that visits pages A, B, A, and at the first page change
  of a book with two annotations.\<close>

theorem C9_witness:
  "scanned session0 = []
   \<and> distinct_adj (scanned (run None clock0 session0
      [PageChange ''page A'' 10, ScanSettled (Inr []),
       PageChange ''page B'' 20, ScanSettled (Inr []),
       PageChange ''page A'' 10]))
   \<and> handlePageChange_start None ''page one'' 10 appXY
       = (Some taskXY,
          appXY\<lparr>progress := 10, isAutoScanning := True, lastScannedPage := Some ''page one''\<rparr>)
   \<and> lastScannedPage appXY \<noteq> Some ''page one''
   \<and> fst (handlePageChange_start None ''page one'' 10
        (appXY\<lparr>progress := 10, isAutoScanning := True, lastScannedPage := Some ''page one''\<rparr>))
       = None"
proof -
  have a: "scanned session0 = []" by (simp add: session0_def)
  show ?thesis
    using C9_no_rescan_of_last_scanned_page [where s = session0 and env = None and now = clock0
            and events = "[PageChange ''page A'' 10, ScanSettled (Inr []),
                           PageChange ''page B'' 20, ScanSettled (Inr []),
                           PageChange ''page A'' 10]"
            and pageContent = "''page one''" and p = 10 and st = appXY and task = taskXY
            and ?st1.0 = "appXY\<lparr>progress := 10, isAutoScanning := True, lastScannedPage := Some ''page one''\<rparr>"
            and p' = 10]
          a start_appXY
    by simp
qed

section \<open>Properties of the provider clients\<close>

lemma fst_callGemini:
  "fst (callGemini w cs config sys ov) = [callGemini_request w cs config sys ov]"
  by (simp add: callGemini_def Let_def)

lemma fst_callOpenAI:
  "fst (callOpenAI w cs config sys ov)
     = (case callOpenAI_request w cs config sys ov of Inl e \<Rightarrow> [] | Inr rq \<Rightarrow> [rq])"
  by (simp add: callOpenAI_def split: sum.splits)

lemma fst_summarizeTopic:
  "fst (summarizeTopic w sel c engine)
     = fst (callAI w [\<lparr>role = ''user'', parts = [''Topic for: \"'' @ c @ ''\"'']\<rparr>] engine None
              (Some \<lparr>ov_temperature = Some (3 / 10), ov_responseMimeType = None\<rparr>))"
  by (simp add: summarizeTopic_def case_prod_unfold Let_def)

text \<open>
  Claim C7 asks that topic summarization send temperature 0.3 for every provider family.
  \<open>summarizeTopic\<close> sends exactly one request. For family A its temperature is 0.3; for
  family B (\<open>provider = OpenAI\<close>) it is the configured temperature, since \<open>callOpenAI\<close>
  reads only \<open>responseMimeType\<close> from the override: with a configured temperature of 0.7 the
  request carries 0.7.
\<close>

theorem C7_summarizeTopic_temperature_by_family:
  "map sentTemperature (fst (summarizeTopic w sel c engine))
     = [if provider engine = OpenAI then temperature engine else 3 / 10]
   \<and> map sentTemperature
        (fst (summarizeTopic world0 ''a passage'' ''A thought.'' (config0\<lparr>provider := OpenAI\<rparr>)))
       = [7 / 10]"
proof -
  have g: "map sentTemperature (fst (summarizeTopic w sel c engine))
     = [if provider engine = OpenAI then temperature engine else 3 / 10]" for w sel c engine
    by (simp add: fst_summarizeTopic callAI_def fst_callGemini fst_callOpenAI
          callGemini_request_def callOpenAI_request_def sentTemperature_def Let_def)
  show ?thesis
    by (simp add: g config0_def)
qed

lemma includes_str_append_right:
  "includes_str b t \<Longrightarrow> includes_str (a @ b) t"
proof (induction a)
  case Nil
  then show ?case by simp
next
  case (Cons x a)
  then show ?case by simp
qed

lemma includes_JSON_suffix:
  "includes_str (s @ [CHR 0x0A] @ ''IMPORTANT: Output strictly in JSON format.'') ''JSON''"
proof -
  have "includes_str ''IMPORTANT: Output strictly in JSON format.'' ''JSON''"
    by (simp add: startsWith_def)
  then have "includes_str ((s @ [CHR 0x0A]) @ ''IMPORTANT: Output strictly in JSON format.'') ''JSON''"
    by (rule includes_str_append_right)
  then show ?thesis by simp
qed

text \<open>
  Claim C8. A family-B call in JSON mode with a system instruction \<open>s\<close> sends one request
  whose first message is the system message: with the text of \<open>s\<close> followed by the JSON
  instruction when \<open>s\<close> does not mention \<open>"JSON"\<close> (so the messages differ from the
  unamended ones), and with the messages unchanged when it does. Either way the first
  message sent mentions \<open>"JSON"\<close>.
\<close>

theorem C8_json_mode_amends_system_message:
  assumes "s \<noteq> []" and "ov_responseMimeType ov = Some ''application/json''"
  shows "map sentMessages (fst (callOpenAI w cs config (Some s) (Some ov)))
           = [\<lparr>m_role = ''system'',
                m_content = (if includes_str s ''JSON'' then s
                             else s @ [CHR 0x0A] @ ''IMPORTANT: Output strictly in JSON format.'')\<rparr>
              # mapGeminiToOpenAI cs None]
       \<and> (if includes_str s ''JSON''
          then map sentMessages (fst (callOpenAI w cs config (Some s) (Some ov)))
                 = [mapGeminiToOpenAI cs (Some s)]
          else map sentMessages (fst (callOpenAI w cs config (Some s) (Some ov)))
                 \<noteq> [mapGeminiToOpenAI cs (Some s)])
       \<and> list_all (\<lambda>ms. includes_str (m_content (hd ms)) ''JSON'')
            (map sentMessages (fst (callOpenAI w cs config (Some s) (Some ov))))"
  using assms includes_JSON_suffix [of s]
  by (simp add: fst_callOpenAI callOpenAI_request_def mapGeminiToOpenAI_def sentMessages_def
        truthy_opt_def truthy_def Let_def)

text \<open>The theorem at a system instruction that does not mention \<open>"JSON"\<close>.\<close>

theorem C8_witness:
  "''You are Socrates.'' \<noteq> []
   \<and> ov_responseMimeType \<lparr>ov_temperature = None, ov_responseMimeType = Some ''application/json''\<rparr>
       = Some ''application/json''
   \<and> map sentMessages (fst (callOpenAI world0 [\<lparr>role = ''user'', parts = [''Scan this page.'']\<rparr>]
          (config0\<lparr>provider := OpenAI\<rparr>) (Some ''You are Socrates.'')
          (Some \<lparr>ov_temperature = None, ov_responseMimeType = Some ''application/json''\<rparr>)))
       = [[\<lparr>m_role = ''system'',
             m_content = ''You are Socrates.'' @ [CHR 0x0A]
                           @ ''IMPORTANT: Output strictly in JSON format.''\<rparr>,
           \<lparr>m_role = ''user'', m_content = ''Scan this page.''\<rparr>]]"
proof -
  have a: "''You are Socrates.'' \<noteq> []" by simp
  have b: "ov_responseMimeType \<lparr>ov_temperature = None, ov_responseMimeType = Some ''application/json''\<rparr>
       = Some ''application/json''" by simp
  have c: "\<not> includes_str ''You are Socrates.'' ''JSON''"
    by (simp add: startsWith_def)
  show ?thesis
    using C8_json_mode_amends_system_message [OF a b, of world0
            "[\<lparr>role = ''user'', parts = [''Scan this page.'']\<rparr>]" "config0\<lparr>provider := OpenAI\<rparr>"] c
    by (simp add: mapGeminiToOpenAI_def truthy_opt_def)
qed


subsection \<open>Responses\<close>

text \<open>
  For a response whose body is not JSON text, or is a JSON value other than \<open>null\<close>, both
  clients do what claim C5 says: a response outside 200..299 fails with the provider's
  message when \<open>error.message\<close> is truthy and with the status-coded message otherwise, and
  a response in 200..299 whose text field is missing or falsy yields the empty string.
\<close>

lemma strict_prop_nonnull: "v \<noteq> JNull \<Longrightarrow> strict_prop v k = Inr (get_prop v k)"
  by (cases v) simp_all

lemma callGemini_response_provider_message:
  assumes "\<not> ok r" and "body r = Some v" and "v \<noteq> JNull"
    and "truthy_js (opt_prop (get_prop v ''error'') ''message'')"
  shows "callGemini_response r = Inl (Error (the (opt_prop (get_prop v ''error'') ''message'')))"
  using assms by (simp add: callGemini_response_def strict_prop_nonnull Let_def)

lemma callGemini_response_generic:
  assumes "\<not> ok r"
    and "body r = None \<or> (\<exists>v. body r = Some v \<and> v \<noteq> JNull
           \<and> \<not> truthy_js (opt_prop (get_prop v ''error'') ''message''))"
  shows "callGemini_response r
           = Inl (Error (JStr (''Gemini API Error: '' @ toString (status r))))"
  using assms by (auto simp add: callGemini_response_def strict_prop_nonnull Let_def)

lemma callGemini_response_empty_text:
  assumes "ok r" and "body r = Some v" and "v \<noteq> JNull"
    and "\<not> truthy_js (opt_prop (opt_index0 (opt_prop (opt_prop (opt_index0
            (get_prop v ''candidates'')) ''content'') ''parts'')) ''text'')"
  shows "callGemini_response r = Inr (JStr [])"
  using assms by (simp add: callGemini_response_def strict_prop_nonnull Let_def)

lemma callOpenAI_response_provider_message:
  assumes "\<not> ok r" and "body r = Some v" and "v \<noteq> JNull"
    and "truthy_js (opt_prop (get_prop v ''error'') ''message'')"
  shows "callOpenAI_response w r = Inl (Error (the (opt_prop (get_prop v ''error'') ''message'')))"
  using assms by (simp add: callOpenAI_response_def strict_prop_nonnull Let_def)

lemma callOpenAI_response_generic:
  assumes "\<not> ok r"
    and "body r = None \<or> (\<exists>v. body r = Some v \<and> v \<noteq> JNull
           \<and> \<not> truthy_js (opt_prop (get_prop v ''error'') ''message''))"
  shows "callOpenAI_response w r
           = Inl (Error (JStr (''OpenAI API Error: '' @ toString (status r) @ '' - ''
                @ JSON_stringify w (case body r of Some v \<Rightarrow> v | None \<Rightarrow> JObj []))))"
  using assms by (auto simp add: callOpenAI_response_def strict_prop_nonnull Let_def)

lemma callOpenAI_response_empty_text:
  assumes "ok r" and "body r = Some v" and "v \<noteq> JNull"
    and "\<not> truthy_js (opt_prop (opt_prop (opt_index0 (get_prop v ''choices'')) ''message'')
            ''content'')"
  shows "callOpenAI_response w r = Inr (JStr [])"
  using assms by (simp add: callOpenAI_response_def strict_prop_nonnull Let_def)

lemma toString_500: "toString 500 = ''500''"
  by (simp add: toString.simps digit_def)

lemma callGemini_response_examples:
  "callGemini_response \<lparr>status = 500, body = Some (providerError ''quota exceeded'')\<rparr>
     = Inl (Error (JStr ''quota exceeded''))"
  "callGemini_response \<lparr>status = 500, body = None\<rparr>
     = Inl (Error (JStr ''Gemini API Error: 500''))"
  "callGemini_response \<lparr>status = 200, body = Some (JObj [])\<rparr> = Inr (JStr [])"
  "callGemini_response \<lparr>status = 200, body = Some (JObj [(''candidates'',
      JArr [JObj [(''content'', JObj [(''parts'', JArr [JObj [(''text'', JStr ''hi'')]])])]])])\<rparr>
     = Inr (JStr ''hi'')"
  by (simp_all add: callGemini_response_def ok_def providerError_def toString_500)

text \<open>
  Claim C5 asks for the provider's message or a status-coded message on every response
  outside 200..299, and for the empty string on every response in 200..299 without the
  text field. Where the body is the JSON literal \<open>null\<close>, both clients read a property of
  \<open>null\<close> (\<open>errData.error\<close>, \<open>data.candidates\<close>, \<open>data.choices\<close>) and throw a TypeError
  instead, for status 500 as for status 200.
\<close>

theorem C5_null_body_throws_TypeError:
  "callGemini_response \<lparr>status = 500, body = Some JNull\<rparr> = Inl TypeError
   \<and> callOpenAI_response w \<lparr>status = 500, body = Some JNull\<rparr> = Inl TypeError
   \<and> callGemini_response \<lparr>status = 200, body = Some JNull\<rparr> = Inl TypeError
   \<and> callOpenAI_response w \<lparr>status = 200, body = Some JNull\<rparr> = Inl TypeError"
  by (simp add: callGemini_response_def callOpenAI_response_def ok_def)

section \<open>Properties of the response extractor\<close>

lemma startsWith_length:
  assumes "startsWith s t"
  shows "length t \<le> length s"
proof -
  have "length (take (length t) s) = length t"
    using assms by (simp add: startsWith_def)
  then show ?thesis by simp
qed

lemma not_startsWith_other_head:
  assumes "c \<notin> set pat" and "pat \<noteq> []"
  shows "\<not> startsWith (c # b) pat"
  using assms by (cases pat) (auto simp add: startsWith_def)

lemma startsWith_append_sep:
  assumes "c \<notin> set pat"
  shows "startsWith (a @ c # b) pat \<longleftrightarrow> startsWith a pat"
proof
  assume h: "startsWith (a @ c # b) pat"
  show "startsWith a pat"
  proof (cases "length pat \<le> length a")
    case True
    then show ?thesis using h by (simp add: startsWith_def)
  next
    case False
    then have "length a < length pat" by simp
    moreover have "pat = take (length pat) (a @ c # b)" using h by (simp add: startsWith_def)
    ultimately have "pat ! length a = c"
      by (metis nth_take nth_append_length)
    then have "c \<in> set pat" using \<open>length a < length pat\<close> nth_mem by blast
    then show ?thesis using assms by simp
  qed
next
  assume h: "startsWith a pat"
  then have "length pat \<le> length a" by (rule startsWith_length)
  then show "startsWith (a @ c # b) pat" using h by (simp add: startsWith_def)
qed

lemma remove_all_match:
  "pat \<noteq> [] \<Longrightarrow> startsWith (c # s) pat
     \<Longrightarrow> remove_all pat (c # s) = remove_all pat (drop (length pat) (c # s))"
  by (simp add: remove_all.simps(2))

lemma remove_all_skip:
  "pat = [] \<or> \<not> startsWith (c # s) pat \<Longrightarrow> remove_all pat (c # s) = c # remove_all pat s"
  by (auto simp add: remove_all.simps(2))

lemma remove_all_sep:
  "c \<notin> set pat \<Longrightarrow> remove_all pat (a @ c # b) = remove_all pat a @ c # remove_all pat b"
proof (induction pat a rule: remove_all.induct)
  case (1 pat)
  have "pat = [] \<or> \<not> startsWith (c # b) pat"
    using not_startsWith_other_head [OF "1.prems"] by blast
  then show ?case by (simp add: remove_all_skip)
next
  case (2 pat x s)
  note sep = startsWith_append_sep [OF "2.prems", of "x # s" b]
  show ?case
  proof (cases "pat \<noteq> [] \<and> startsWith (x # s) pat")
    case True
    then have len: "length pat \<le> length (x # s)" using startsWith_length by blast
    have sw: "startsWith (x # (s @ c # b)) pat"
      using True sep by simp
    have "remove_all pat ((x # s) @ c # b)
            = remove_all pat (drop (length pat) (x # (s @ c # b)))"
      using True sw by (simp add: remove_all_match)
    also have "drop (length pat) (x # (s @ c # b)) = drop (length pat) (x # s) @ c # b"
      using len drop_append [of "length pat" "x # s" "c # b"] by simp
    also have "remove_all pat (drop (length pat) (x # s) @ c # b)
                 = remove_all pat (drop (length pat) (x # s)) @ c # remove_all pat b"
      using "2.IH"(1) True "2.prems" by simp
    also have "remove_all pat (drop (length pat) (x # s)) = remove_all pat (x # s)"
      using True by (simp add: remove_all_match)
    finally show ?thesis .
  next
    case False
    then have nsw: "pat = [] \<or> \<not> startsWith (x # (s @ c # b)) pat"
      using sep by simp
    have "remove_all pat ((x # s) @ c # b) = x # remove_all pat (s @ c # b)"
      using nsw by (simp add: remove_all_skip)
    also have "remove_all pat (s @ c # b) = remove_all pat s @ c # remove_all pat b"
      using "2.IH"(2) False "2.prems" by simp
    also have "x # remove_all pat s @ c # remove_all pat b
                 = remove_all pat (x # s) @ c # remove_all pat b"
      using False by (simp add: remove_all_skip)
    finally show ?thesis .
  qed
qed

lemma trim_newlines: "trim (CHR 0x0A # s @ [CHR 0x0A]) = trim s"
proof -
  have lf: "isWhiteSpace (CHR 0x0A)" by (simp add: isWhiteSpace_def)
  show ?thesis
  proof (cases "\<forall>x \<in> set s. isWhiteSpace x")
    case True
    have d1: "dropWhile isWhiteSpace s = []"
      using True by simp
    have "dropWhile isWhiteSpace (s @ [CHR 0x0A]) = dropWhile isWhiteSpace [CHR 0x0A]"
      using True by (intro dropWhile_append2) blast
    then have d2: "dropWhile isWhiteSpace (s @ [CHR 0x0A]) = []"
      using lf by simp
    have d3: "dropWhile isWhiteSpace (CHR 0x0A # s @ [CHR 0x0A]) = []"
      using lf d2 by simp
    show ?thesis unfolding trim_def d1 d3 by simp
  next
    case False
    then obtain x where "x \<in> set s" and "\<not> isWhiteSpace x" by blast
    then have "dropWhile isWhiteSpace (s @ [CHR 0x0A]) = dropWhile isWhiteSpace s @ [CHR 0x0A]"
      by (rule dropWhile_append1)
    then show ?thesis using lf by (simp add: trim_def)
  qed
qed

lemma cleanJSON_fenced:
  "cleanJSON (''```json'' @ [CHR 0x0A] @ j @ [CHR 0x0A] @ ''```'') = cleanJSON j"
proof -
  have a: "remove_all ''```json'' (''```json'' @ [CHR 0x0A] @ j @ [CHR 0x0A] @ ''```'')
             = remove_all ''```json'' (CHR 0x0A # (j @ CHR 0x0A # ''```''))"
    by (simp add: remove_all_match startsWith_def)
  have b1: "remove_all ''```json'' (CHR 0x0A # (j @ CHR 0x0A # ''```''))
             = CHR 0x0A # remove_all ''```json'' (j @ CHR 0x0A # ''```'')"
    by (simp add: remove_all_skip startsWith_def)
  have b2: "remove_all ''```json'' (j @ CHR 0x0A # ''```'')
             = remove_all ''```json'' j @ CHR 0x0A # remove_all ''```json'' ''```''"
    by (rule remove_all_sep) simp
  have b3: "remove_all ''```json'' ''```'' = ''```''"
    by (simp add: remove_all_skip startsWith_def)
  have c1: "remove_all ''```'' (CHR 0x0A # (remove_all ''```json'' j @ CHR 0x0A # ''```''))
             = CHR 0x0A # remove_all ''```'' (remove_all ''```json'' j @ CHR 0x0A # ''```'')"
    by (simp add: remove_all_skip startsWith_def)
  have c2: "remove_all ''```'' (remove_all ''```json'' j @ CHR 0x0A # ''```'')
             = remove_all ''```'' (remove_all ''```json'' j) @ CHR 0x0A # remove_all ''```'' ''```''"
    by (rule remove_all_sep) simp
  have c3: "remove_all ''```'' ''```'' = []"
    by (simp add: remove_all_match startsWith_def)
  have "remove_all ''```'' (remove_all ''```json'' (''```json'' @ [CHR 0x0A] @ j @ [CHR 0x0A] @ ''```''))
          = CHR 0x0A # remove_all ''```'' (remove_all ''```json'' j) @ [CHR 0x0A]"
    by (simp only: a b1 b2 b3 c1 c2 c3)
  then show ?thesis
    by (simp only: cleanJSON_def trim_newlines)
qed


lemma startsWith_prefix: "startsWith s (a @ b) \<Longrightarrow> startsWith s a"
proof -
  assume h: "startsWith s (a @ b)"
  then have "take (length a) (take (length (a @ b)) s) = take (length a) (a @ b)"
    by (simp only: startsWith_def)
  then show ?thesis by (simp add: startsWith_def min_def)
qed

lemma includes_str_prefix: "includes_str s (a @ b) \<Longrightarrow> includes_str s a"
proof (induction s)
  case Nil
  then show ?case by simp
next
  case (Cons x s)
  then show ?case using startsWith_prefix [of "x # s" a b] by auto
qed

lemma remove_all_absent: "\<not> includes_str s pat \<Longrightarrow> remove_all pat s = s"
proof (induction s)
  case Nil
  then show ?case by simp
next
  case (Cons x s)
  then have "\<not> startsWith (x # s) pat" and "\<not> includes_str s pat" by simp_all
  then show ?case using Cons.IH by (simp add: remove_all_skip)
qed

lemma cleanJSON_plain:
  assumes "\<not> includes_str j ''```''"
  shows "cleanJSON j = trim j"
proof -
  have "\<not> includes_str j (''```'' @ ''json'')"
    using assms includes_str_prefix by blast
  then have "remove_all ''```json'' j = j"
    using remove_all_absent [of j "''```json''"] by simp
  then show ?thesis
    using remove_all_absent [OF assms] by (simp add: cleanJSON_def)
qed

text \<open>
  Claim C6, as amended. Take a JSON text that holds no run of three backquotes, wrapped in
  a fence with the language tag \<open>json\<close> (the opening fence and the tag, a line feed, the
  text, a line feed, the closing fence). The extractor parses the trimmed text; so, with a
  parser that returns the same for a text as for the text trimmed (as \<open>JSON.parse\<close> does
  on JSON, where the white space around the value is skipped), the extractor and both
  callers get the value the unwrapped text has. The caller that expects an array,
  \<open>autonomousScan\<close>, turns any value that is not an array (null, a boolean, a number, a
  string, an object) into the one-element array holding it, returns an array as it is, and
  returns the empty array on an error. The caller that expects a single object,
  \<open>generateSoulReport\<close>, returns whatever value was parsed, unchanged, and its default
  report on an error.
\<close>

theorem C6_fenced_json_and_array_normalisation:
  "(\<not> includes_str j ''```''
      \<longrightarrow> parseStructured w (Inr (JStr (''```json'' @ [CHR 0x0A] @ j @ [CHR 0x0A] @ ''```'')))
            = JSON_parse w (trim j))
   \<and> (\<not> includes_str j ''```'' \<and> JSON_parse w (trim j) = JSON_parse w j
      \<longrightarrow> parseStructured w (Inr (JStr (''```json'' @ [CHR 0x0A] @ j @ [CHR 0x0A] @ ''```'')))
            = JSON_parse w j
          \<and> generateSoulReport_from w
              (Inr (JStr (''```json'' @ [CHR 0x0A] @ j @ [CHR 0x0A] @ ''```'')))
            = soulReport_return (JSON_parse w j)
          \<and> autonomousScan_from w
              (Inr (JStr (''```json'' @ [CHR 0x0A] @ j @ [CHR 0x0A] @ ''```'')))
            = scan_return (JSON_parse w j))
   \<and> scan_return (Inr JNull) = [JNull]
   \<and> scan_return (Inr (JBool b)) = [JBool b]
   \<and> scan_return (Inr (JNum x)) = [JNum x]
   \<and> scan_return (Inr (JStr s)) = [JStr s]
   \<and> scan_return (Inr (JObj kvs)) = [JObj kvs]
   \<and> scan_return (Inr (JArr xs)) = xs
   \<and> scan_return (Inl e) = []
   \<and> soulReport_return (Inr v) = v
   \<and> soulReport_return (Inl e) = defaultSoulReport"
proof -
  have trimmed: "parseStructured w (Inr (JStr (''```json'' @ [CHR 0x0A] @ j @ [CHR 0x0A] @ ''```'')))
            = JSON_parse w (trim j)"
    if h: "\<not> includes_str j ''```''"
  proof -
    have "parseStructured w (Inr (JStr (''```json'' @ [CHR 0x0A] @ j @ [CHR 0x0A] @ ''```'')))
            = JSON_parse w (cleanJSON j)"
      by (simp only: parseStructured_def sum.case asString.simps cleanJSON_fenced)
    also have "cleanJSON j = trim j"
      using h by (rule cleanJSON_plain)
    finally show ?thesis .
  qed
  have fenced: "parseStructured w (Inr (JStr (''```json'' @ [CHR 0x0A] @ j @ [CHR 0x0A] @ ''```'')))
            = JSON_parse w j"
    if h: "\<not> includes_str j ''```'' \<and> JSON_parse w (trim j) = JSON_parse w j"
    using trimmed h by simp
  have returns: "scan_return (Inr JNull) = [JNull]
   \<and> scan_return (Inr (JBool b)) = [JBool b]
   \<and> scan_return (Inr (JNum x)) = [JNum x]
   \<and> scan_return (Inr (JStr s)) = [JStr s]
   \<and> scan_return (Inr (JObj kvs)) = [JObj kvs]
   \<and> scan_return (Inr (JArr xs)) = xs
   \<and> scan_return (Inl e) = []
   \<and> soulReport_return (Inr v) = v
   \<and> soulReport_return (Inl e) = defaultSoulReport"
    by (simp add: scan_return_def soulReport_return_def)
  show ?thesis
    using trimmed fenced returns
    unfolding generateSoulReport_from_def autonomousScan_from_def
    by metis
qed

text \<open>The theorem at the fenced text of an object that the parser of \<open>world1\<close> knows.\<close>

theorem C6_witness:
  "\<not> includes_str ''{\"a\":1}'' ''```''
   \<and> JSON_parse world1 (trim ''{\"a\":1}'') = JSON_parse world1 ''{\"a\":1}''
   \<and> parseStructured world1
        (Inr (JStr (''```json'' @ [CHR 0x0A] @ ''{\"a\":1}'' @ [CHR 0x0A] @ ''```'')))
       = Inr (JObj [(''a'', JNum 1)])
   \<and> generateSoulReport_from world1
        (Inr (JStr (''```json'' @ [CHR 0x0A] @ ''{\"a\":1}'' @ [CHR 0x0A] @ ''```'')))
       = JObj [(''a'', JNum 1)]
   \<and> autonomousScan_from world1
        (Inr (JStr (''```json'' @ [CHR 0x0A] @ ''{\"a\":1}'' @ [CHR 0x0A] @ ''```'')))
       = [JObj [(''a'', JNum 1)]]"
proof -
  have a: "\<not> includes_str ''{\"a\":1}'' ''```''"
    by (simp add: startsWith_def)
  have t: "trim ''{\"a\":1}'' = ''{\"a\":1}''"
    by (simp add: trim_def isWhiteSpace_def)
  have b: "JSON_parse world1 (trim ''{\"a\":1}'') = JSON_parse world1 ''{\"a\":1}''"
    by (simp only: t)
  have v: "JSON_parse world1 ''{\"a\":1}'' = Inr (JObj [(''a'', JNum 1)])"
    by (simp add: world1_def world0_def)
  have "parseStructured world1
          (Inr (JStr (''```json'' @ [CHR 0x0A] @ ''{\"a\":1}'' @ [CHR 0x0A] @ ''```'')))
          = JSON_parse world1 ''{\"a\":1}''
        \<and> generateSoulReport_from world1
            (Inr (JStr (''```json'' @ [CHR 0x0A] @ ''{\"a\":1}'' @ [CHR 0x0A] @ ''```'')))
          = soulReport_return (JSON_parse world1 ''{\"a\":1}'')
        \<and> autonomousScan_from world1
            (Inr (JStr (''```json'' @ [CHR 0x0A] @ ''{\"a\":1}'' @ [CHR 0x0A] @ ''```'')))
          = scan_return (JSON_parse world1 ''{\"a\":1}'')"
    using C6_fenced_json_and_array_normalisation [of "''{\"a\":1}''" world1] a b by blast
  then show ?thesis
    using a b by (simp only: v) (simp add: scan_return_def soulReport_return_def)
qed

text \<open>
  Claim C6 as stated fails three times. \<open>generateSoulReport\<close> on a one-element array
  returns the array, not the object in it. A fence with another language tag, here \<open>js\<close>,
  leaves the tag in the text, which is then not JSON, while the unwrapped text parses. And
  three backquotes inside a JSON string are removed with the fences: the fenced object
  parses to an object holding the empty string, the unwrapped one to an object holding the
  backquotes.
\<close>

theorem C6_counterexample:
  "generateSoulReport_from world1 (Inr (JStr ''[{\"a\":1}]'')) = JArr [JObj [(''a'', JNum 1)]]
   \<and> generateSoulReport_from world1 (Inr (JStr ''{\"a\":1}'')) = JObj [(''a'', JNum 1)]
   \<and> cleanJSON (''```js'' @ [CHR 0x0A] @ ''{\"a\":1}'' @ [CHR 0x0A] @ ''```'')
       = ''js'' @ [CHR 0x0A] @ ''{\"a\":1}''
   \<and> parseStructured world1 (Inr (JStr (''```js'' @ [CHR 0x0A] @ ''{\"a\":1}'' @ [CHR 0x0A] @ ''```'')))
       = Inl SyntaxError
   \<and> parseStructured world1 (Inr (JStr ''{\"a\":1}'')) = Inr (JObj [(''a'', JNum 1)])
   \<and> JSON_parse world1 ''{\"a\":\"```\"}'' = Inr (JObj [(''a'', JStr ''```'')])
   \<and> parseStructured world1
        (Inr (JStr (''```json'' @ [CHR 0x0A] @ ''{\"a\":\"```\"}'' @ [CHR 0x0A] @ ''```'')))
       = Inr (JObj [(''a'', JStr [])])"
  by (simp add: generateSoulReport_from_def soulReport_return_def parseStructured_def
        cleanJSON_def remove_all.simps(2) startsWith_def trim_def isWhiteSpace_def
        world1_def world0_def)

section \<open>Properties of the endpoint resolver\<close>

subsection \<open>trim\<close>

lemma trim_Nil [simp]: "trim [] = []"
  by (simp add: trim_def)

lemma trim_clean:
  assumes "s \<noteq> []" and "\<not> isWhiteSpace (hd s)" and "\<not> isWhiteSpace (last s)"
  shows "trim s = s"
proof -
  have keep: "dropWhile isWhiteSpace xs = xs" if "xs \<noteq> []" and "\<not> isWhiteSpace (hd xs)" for xs
    using that by (cases xs) simp_all
  have a: "dropWhile isWhiteSpace s = s"
    using assms(1,2) by (rule keep)
  have "rev s \<noteq> []" and "hd (rev s) = last s"
    using assms(1) by (simp_all add: hd_rev)
  then have b: "dropWhile isWhiteSpace (rev s) = rev s"
    using assms(3) keep [of "rev s"] by simp
  show ?thesis by (simp add: trim_def a b)
qed

lemma trim_is_take: "\<exists>n. trim s = take n (dropWhile isWhiteSpace s)"
proof -
  obtain k where "dropWhile isWhiteSpace (rev (dropWhile isWhiteSpace s))
                    = drop k (rev (dropWhile isWhiteSpace s))"
    by (metis dropWhile_eq_drop)
  then have "trim s = rev (drop k (rev (dropWhile isWhiteSpace s)))"
    by (simp add: trim_def)
  then have "trim s = take (length (dropWhile isWhiteSpace s) - k) (dropWhile isWhiteSpace s)"
    by (simp add: rev_drop)
  then show ?thesis by blast
qed

lemma hd_trim:
  assumes "trim s \<noteq> []"
  shows "\<not> isWhiteSpace (hd (trim s))"
proof -
  obtain n where n: "trim s = take n (dropWhile isWhiteSpace s)"
    using trim_is_take by blast
  have ne: "dropWhile isWhiteSpace s \<noteq> []" and "n \<noteq> 0"
    using assms n by auto
  then have "hd (trim s) = hd (dropWhile isWhiteSpace s)"
    using n by (cases n; cases "dropWhile isWhiteSpace s") simp_all
  then show ?thesis
    using ne hd_dropWhile [of isWhiteSpace s] by simp
qed

lemma hd_take_trim:
  assumes "take n (trim s) \<noteq> []"
  shows "\<not> isWhiteSpace (hd (take n (trim s)))"
proof -
  have "trim s \<noteq> []" and "n \<noteq> 0" using assms by auto
  then have "hd (take n (trim s)) = hd (trim s)"
    by (cases n; cases "trim s") simp_all
  then show ?thesis using hd_trim [OF \<open>trim s \<noteq> []\<close>] by simp
qed

subsection \<open>endsWith and includes\<close>

lemma endsWith_append [simp]: "endsWith (p @ t) t"
  by (simp add: endsWith_def)

lemma slice_end_append [simp]: "slice_end (p @ t) (length t) = p"
  by (simp add: slice_end_def)

lemma endsWith_split: "endsWith s t \<Longrightarrow> s = slice_end s (length t) @ t"
  by (metis append_take_drop_id endsWith_def slice_end_def)

lemma includes_str_self [simp]: "includes_str t t"
  by (cases t) (simp_all add: startsWith_def)

lemma includes_str_set: "includes_str s t \<Longrightarrow> set t \<subseteq> set s"
proof (induction s)
  case Nil
  then show ?case by simp
next
  case (Cons x s)
  show ?case
  proof (cases "startsWith (x # s) t")
    case True
    then have "t = take (length t) (x # s)" by (simp add: startsWith_def)
    then have "set t \<subseteq> set (x # s)" by (metis set_take_subset)
    then show ?thesis .
  next
    case False
    then show ?thesis using Cons by auto
  qed
qed

text \<open>A text that does not hold the last code unit of the pattern cannot complete a match.\<close>

lemma startsWith_append_short:
  assumes "startsWith (a @ b) t" and "t \<noteq> []" and "last t \<notin> set b"
  shows "startsWith a t"
proof (cases "length t \<le> length a")
  case True
  then show ?thesis using assms(1) by (simp add: startsWith_def)
next
  case False
  have le: "length t \<le> length (a @ b)" using assms(1) by (rule startsWith_length)
  have t: "t = take (length t) (a @ b)" using assms(1) by (simp add: startsWith_def)
  have "last t = t ! (length t - 1)" using assms(2) by (simp add: last_conv_nth)
  also have "\<dots> = (a @ b) ! (length t - 1)"
    using t assms(2) by (metis diff_less length_greater_0_conv nth_take zero_less_one)
  also have "\<dots> = b ! (length t - 1 - length a)"
  proof -
    have "\<not> length t - 1 < length a" using False by simp
    then show ?thesis by (simp only: nth_append if_False)
  qed
  finally have "last t = b ! (length t - 1 - length a)" .
  moreover have "length t - 1 - length a < length b" using False le assms(2) by (cases t) auto
  ultimately have "last t \<in> set b" by (metis nth_mem)
  then show ?thesis using assms(3) by simp
qed

lemma not_includes_append:
  assumes "\<not> includes_str a t" and "t \<noteq> []" and "last t \<notin> set b"
  shows "\<not> includes_str (a @ b) t"
  using assms(1)
proof (induction a)
  case Nil
  have "last t \<in> set t" using assms(2) by simp
  then have "\<not> set t \<subseteq> set b" using assms(3) by blast
  then show ?case using includes_str_set by auto
next
  case (Cons x a)
  then have n1: "\<not> startsWith (x # a) t" and n2: "\<not> includes_str a t" by simp_all
  have "\<not> startsWith ((x # a) @ b) t"
    using startsWith_append_short [OF _ assms(2,3)] n1 by blast
  then show ?case using Cons.IH [OF n2] by simp
qed

subsection \<open>Counting matches\<close>

lemma count_str_short: "length s < length t \<Longrightarrow> count_str s t = 0"
proof (induction s)
  case Nil
  then show ?case by auto
next
  case (Cons x s)
  have "\<not> startsWith (x # s) t"
    using Cons.prems startsWith_length by fastforce
  then show ?case using Cons by simp
qed

text \<open>A pattern no proper end of which is also its beginning can only match once in a
  text that ends with it and holds no match before.\<close>

lemma count_str_once:
  assumes border: "\<And>k. 0 < k \<Longrightarrow> k < length t \<Longrightarrow> drop k t \<noteq> take (length t - k) t"
    and "t \<noteq> []" and "\<not> includes_str q t"
  shows "count_str (q @ t) t = 1"
  using assms(3)
proof (induction q)
  case Nil
  obtain c r where t: "t = c # r" using assms(2) by (cases t) auto
  have "count_str r t = 0" by (rule count_str_short) (simp add: t)
  then show ?case by (simp add: t startsWith_def)
next
  case (Cons x q)
  then have n1: "\<not> startsWith (x # q) t" and n2: "\<not> includes_str q t"
    by simp_all
  have "\<not> startsWith ((x # q) @ t) t"
  proof
    assume sw: "startsWith ((x # q) @ t) t"
    show False
    proof (cases "length t \<le> length (x # q)")
      case True
      then have "take (length t) ((x # q) @ t) = take (length t) (x # q)"
        by (simp only: take_append) simp
      then have "startsWith (x # q) t" using sw by (simp only: startsWith_def)
      then show False using n1 by simp
    next
      case False
      then have lt: "length (x # q) < length t" by simp
      have "t = take (length t) ((x # q) @ t)"
        using sw by (simp add: startsWith_def)
      also have "\<dots> = (x # q) @ take (length t - length (x # q)) t"
        using lt by (simp only: take_append) simp
      finally have "drop (length (x # q)) t
                      = drop (length (x # q)) ((x # q) @ take (length t - length (x # q)) t)"
        by simp
      then have "drop (length (x # q)) t = take (length t - length (x # q)) t"
        by (simp only: drop_append) simp
      then show False using border [of "length (x # q)"] lt by simp
    qed
  qed
  then show ?case using Cons.IH [OF n2] by simp
qed

lemma completions_no_border:
  assumes "0 < k" and "k < length ''/chat/completions''"
  shows "drop k ''/chat/completions'' \<noteq> take (length ''/chat/completions'' - k) ''/chat/completions''"
proof -
  have "k < 17" using assms(2) by simp
  then have "k = 0 \<or> k = 1 \<or> k = 2 \<or> k = 3 \<or> k = 4 \<or> k = 5 \<or> k = 6 \<or> k = 7 \<or> k = 8 \<or> k = 9
        \<or> k = 10 \<or> k = 11 \<or> k = 12 \<or> k = 13 \<or> k = 14 \<or> k = 15 \<or> k = 16"
    by arith
  then show ?thesis
    using assms(1) by (elim disjE) simp_all
qed

subsection \<open>Family A\<close>

lemma slice_or_keep_is_take:
  "\<exists>n. (if c then slice_end x k else x) = take n x"
proof (cases c)
  case True
  then show ?thesis by (auto simp add: slice_end_def)
next
  case False
  then have "(if c then slice_end x k else x) = take (length x) x" by simp
  then show ?thesis by blast
qed

lemma geminiBaseUrl_is_take:
  "\<exists>n. geminiBaseUrl config
         = take n (trim (or_else (baseUrl config) ''https://generativelanguage.googleapis.com''))"
proof -
  define t where "t = trim (or_else (baseUrl config) ''https://generativelanguage.googleapis.com'')"
  define b1 where "b1 = (if endsWith t ''/'' then slice_end t 1 else t)"
  obtain n where n: "b1 = take n t"
    unfolding b1_def using slice_or_keep_is_take by blast
  obtain m where m: "(if endsWith b1 ''v1beta'' then slice_end b1 (length ''v1beta'' + 1) else b1)
                       = take m b1"
    using slice_or_keep_is_take by blast
  have "geminiBaseUrl config
          = (if endsWith b1 ''v1beta'' then slice_end b1 (length ''v1beta'' + 1) else b1)"
    by (simp add: geminiBaseUrl_def Let_def b1_def t_def)
  then have "geminiBaseUrl config = take (min m n) t"
    using m n by simp
  then show ?thesis unfolding t_def by blast
qed

lemma hd_geminiBaseUrl:
  assumes "geminiBaseUrl config \<noteq> []"
  shows "\<not> isWhiteSpace (hd (geminiBaseUrl config))"
proof -
  obtain n where n: "geminiBaseUrl config
      = take n (trim (or_else (baseUrl config) ''https://generativelanguage.googleapis.com''))"
    using geminiBaseUrl_is_take by blast
  show ?thesis
    using assms hd_take_trim
            [of n "or_else (baseUrl config) ''https://generativelanguage.googleapis.com''"]
    unfolding n by simp
qed

lemma not_ws_literals [simp]:
  "\<not> isWhiteSpace (CHR ''/'')" "\<not> isWhiteSpace (CHR ''a'')" "\<not> isWhiteSpace (CHR ''s'')"
  "\<not> isWhiteSpace (CHR ''1'')"
  by (simp_all add: isWhiteSpace_def)

lemma trim_base_suffix:
  assumes "b = [] \<or> \<not> isWhiteSpace (hd b)" and "t \<noteq> []"
    and "\<not> isWhiteSpace (hd t)" and "\<not> isWhiteSpace (last t)"
  shows "trim (b @ t) = b @ t"
proof (rule trim_clean)
  show "b @ t \<noteq> []" using assms(2) by simp
  show "\<not> isWhiteSpace (hd (b @ t))" using assms(1,3) by (cases b) auto
  show "\<not> isWhiteSpace (last (b @ t))" using assms(2,4) by simp
qed

lemma geminiBaseUrl_plain:
  assumes "trim (or_else (baseUrl config) ''https://generativelanguage.googleapis.com'') = x"
    and "\<not> endsWith x ''/''" and "endsWith x ''v1beta''"
  shows "geminiBaseUrl config = slice_end x (length ''v1beta'' + 1)"
  using assms by (simp add: geminiBaseUrl_def Let_def)

lemma geminiBaseUrl_slash:
  assumes "trim (or_else (baseUrl config) ''https://generativelanguage.googleapis.com'') = x"
    and "endsWith x ''/''" and "slice_end x 1 = y" and "endsWith y ''v1beta''"
  shows "geminiBaseUrl config = slice_end y (length ''v1beta'' + 1)"
  using assms by (simp add: geminiBaseUrl_def Let_def)

lemma geminiBaseUrl_versioned:
  assumes "b = [] \<or> \<not> isWhiteSpace (hd b)"
  shows "geminiBaseUrl (config\<lparr>baseUrl := b @ ''/v1beta''\<rparr>) = b"
    and "geminiBaseUrl (config\<lparr>baseUrl := b @ ''/v1beta/''\<rparr>) = b"
proof -
  define B1 where "B1 = b @ ''/v1beta''"
  define B2 where "B2 = b @ ''/v1beta/''"
  have ne: "B1 \<noteq> []" "B2 \<noteq> []" by (simp_all add: B1_def B2_def)
  have t1: "trim B1 = B1"
    unfolding B1_def using assms by (intro trim_base_suffix) simp_all
  have t2: "trim B2 = B2"
    unfolding B2_def using assms by (intro trim_base_suffix) simp_all
  have e1: "\<not> endsWith B1 ''/''"
    by (simp add: endsWith_def B1_def)
  have e2: "endsWith B1 ''v1beta''"
    by (simp add: endsWith_def B1_def)
  have s2: "slice_end B1 (length ''v1beta'' + 1) = b"
    by (simp add: slice_end_def B1_def)
  have e3: "endsWith B2 ''/''"
    by (simp add: endsWith_def B2_def)
  have s3: "slice_end B2 1 = B1"
    by (simp add: slice_end_def B1_def B2_def)
  have o1: "trim (or_else (baseUrl (config\<lparr>baseUrl := B1\<rparr>))
              ''https://generativelanguage.googleapis.com'') = B1"
    using ne t1 by (simp add: or_else_def truthy_def)
  have o2: "trim (or_else (baseUrl (config\<lparr>baseUrl := B2\<rparr>))
              ''https://generativelanguage.googleapis.com'') = B2"
    using ne t2 by (simp add: or_else_def truthy_def)
  have "geminiBaseUrl (config\<lparr>baseUrl := B1\<rparr>) = b"
    using geminiBaseUrl_plain [OF o1 e1 e2] s2 by simp
  then show "geminiBaseUrl (config\<lparr>baseUrl := b @ ''/v1beta''\<rparr>) = b"
    by (simp only: B1_def)
  have "geminiBaseUrl (config\<lparr>baseUrl := B2\<rparr>) = b"
    using geminiBaseUrl_slash [OF o2 e3 s3 e2] s2 by simp
  then show "geminiBaseUrl (config\<lparr>baseUrl := b @ ''/v1beta/''\<rparr>) = b"
    by (simp only: B2_def)
qed

lemma getGeminiEndpoint_url:
  "url (getGeminiEndpoint w config method)
     = geminiBaseUrl config @ ''/v1beta/models/''
         @ or_else (model config) ''gemini-3-flash-preview'' @ '':'' @ method
         @ ''?key='' @ resolveApiKey w config"
  by (simp add: getGeminiEndpoint_def Let_def)

lemma resolveApiKey_baseUrl [simp]:
  "resolveApiKey w (config\<lparr>baseUrl := b\<rparr>) = resolveApiKey w config"
  by (simp add: resolveApiKey_def)

lemma gemini_versioned_same_url:
  "url (getGeminiEndpoint w (config\<lparr>baseUrl := geminiBaseUrl config @ ''/v1beta''\<rparr>) method)
     = url (getGeminiEndpoint w config method)"
  "url (getGeminiEndpoint w (config\<lparr>baseUrl := geminiBaseUrl config @ ''/v1beta/''\<rparr>) method)
     = url (getGeminiEndpoint w config method)"
proof -
  have c: "geminiBaseUrl config = [] \<or> \<not> isWhiteSpace (hd (geminiBaseUrl config))"
    using hd_geminiBaseUrl by blast
  show "url (getGeminiEndpoint w (config\<lparr>baseUrl := geminiBaseUrl config @ ''/v1beta''\<rparr>) method)
     = url (getGeminiEndpoint w config method)"
    by (simp only: getGeminiEndpoint_url geminiBaseUrl_versioned(1) [OF c] resolveApiKey_baseUrl)
       simp
  show "url (getGeminiEndpoint w (config\<lparr>baseUrl := geminiBaseUrl config @ ''/v1beta/''\<rparr>) method)
     = url (getGeminiEndpoint w config method)"
    by (simp only: getGeminiEndpoint_url geminiBaseUrl_versioned(2) [OF c] resolveApiKey_baseUrl)
       simp
qed


subsection \<open>Family B\<close>

lemma openAIBaseUrl_is_take:
  "\<exists>n. openAIBaseUrl config
         = take n (trim (or_else (baseUrl config) ''https://api.siliconflow.cn''))"
  unfolding openAIBaseUrl_def Let_def using slice_or_keep_is_take by blast

lemma hd_openAIBaseUrl:
  assumes "openAIBaseUrl config \<noteq> []"
  shows "\<not> isWhiteSpace (hd (openAIBaseUrl config))"
proof -
  obtain n where n: "openAIBaseUrl config
      = take n (trim (or_else (baseUrl config) ''https://api.siliconflow.cn''))"
    using openAIBaseUrl_is_take by blast
  show ?thesis
    using assms hd_take_trim [of n "or_else (baseUrl config) ''https://api.siliconflow.cn''"]
    unfolding n by simp
qed

lemma getOpenAIEndpoint_url:
  "url (getOpenAIEndpoint w config)
     = (if \<not> includes_str (openAIBaseUrl config) ''/chat/completions''
        then (if \<not> endsWith (openAIBaseUrl config) ''/v1''
              then openAIBaseUrl config @ ''/v1'' else openAIBaseUrl config)
               @ ''/chat/completions''
        else openAIBaseUrl config)"
  by (simp add: getOpenAIEndpoint_def Let_def)

lemma openAIBaseUrl_of_clean:
  assumes "x \<noteq> []" and "trim x = x" and "\<not> endsWith x ''/''"
  shows "openAIBaseUrl (config\<lparr>baseUrl := x\<rparr>) = x"
  using assms by (simp add: openAIBaseUrl_def Let_def or_else_def truthy_def)

lemma openAIBaseUrl_of_clean_slash:
  assumes "trim (x @ ''/'') = x @ ''/''"
  shows "openAIBaseUrl (config\<lparr>baseUrl := x @ ''/''\<rparr>) = x"
proof -
  define y where "y = x @ ''/''"
  have y: "y \<noteq> []" "trim y = y" "endsWith y ''/''" "slice_end y 1 = x"
    using assms by (simp_all add: y_def endsWith_def slice_end_def)
  have "openAIBaseUrl (config\<lparr>baseUrl := y\<rparr>) = x"
    using y by (simp add: openAIBaseUrl_def Let_def or_else_def truthy_def)
  then show ?thesis by (simp only: y_def)
qed

lemma last_completions [simp]: "last ''/chat/completions'' = CHR ''s''"
  by simp

lemma not_includes_v1:
  assumes "\<not> includes_str x ''/chat/completions''"
  shows "\<not> includes_str (x @ ''/v1'') ''/chat/completions''"
  using assms by (rule not_includes_append) simp_all

text \<open>The part of the resolved URL in front of \<open>/chat/completions\<close>.\<close>

lemma openAI_url_shape:
  assumes "\<not> includes_str (openAIBaseUrl config) ''/chat/completions''"
  shows "\<exists>q. url (getOpenAIEndpoint w config) = q @ ''/v1'' @ ''/chat/completions''
            \<and> \<not> includes_str (q @ ''/v1'') ''/chat/completions''
            \<and> (q = [] \<or> \<not> isWhiteSpace (hd q))"
proof (cases "endsWith (openAIBaseUrl config) ''/v1''")
  case True
  define q where "q = slice_end (openAIBaseUrl config) (length ''/v1'')"
  have nb: "openAIBaseUrl config = q @ ''/v1''"
    unfolding q_def using True by (rule endsWith_split)
  have hq: "q = [] \<or> \<not> isWhiteSpace (hd q)"
  proof (cases q)
    case Nil
    then show ?thesis by simp
  next
    case (Cons a q')
    have "openAIBaseUrl config \<noteq> []" and "hd (openAIBaseUrl config) = hd q"
      unfolding nb using Cons by simp_all
    then show ?thesis using hd_openAIBaseUrl [of config] by simp
  qed
  have "url (getOpenAIEndpoint w config) = openAIBaseUrl config @ ''/chat/completions''"
    using assms True by (simp only: getOpenAIEndpoint_url) simp
  then have "url (getOpenAIEndpoint w config) = q @ ''/v1'' @ ''/chat/completions''"
    by (simp only: nb append_assoc)
  moreover have "\<not> includes_str (q @ ''/v1'') ''/chat/completions''"
    using assms unfolding nb .
  ultimately show ?thesis using hq by blast
next
  case False
  have hq: "openAIBaseUrl config = [] \<or> \<not> isWhiteSpace (hd (openAIBaseUrl config))"
    using hd_openAIBaseUrl by blast
  have "url (getOpenAIEndpoint w config)
          = (openAIBaseUrl config @ ''/v1'') @ ''/chat/completions''"
    using assms False by (simp only: getOpenAIEndpoint_url) simp
  then have "url (getOpenAIEndpoint w config)
          = openAIBaseUrl config @ ''/v1'' @ ''/chat/completions''"
    by (simp only: append_assoc)
  moreover have "\<not> includes_str (openAIBaseUrl config @ ''/v1'') ''/chat/completions''"
    using assms by (rule not_includes_v1)
  ultimately show ?thesis using hq by blast
qed

lemma openAI_resolved_fixed:
  assumes "q = [] \<or> \<not> isWhiteSpace (hd q)"
  shows "url (getOpenAIEndpoint w (config\<lparr>baseUrl := q @ ''/v1/chat/completions''\<rparr>))
           = q @ ''/v1/chat/completions''"
proof -
  define u where "u = q @ ''/v1/chat/completions''"
  have t: "trim u = u"
    unfolding u_def using assms by (intro trim_base_suffix) simp_all
  have ne: "u \<noteq> []" by (simp add: u_def)
  have ns: "\<not> endsWith u ''/''" by (simp add: u_def endsWith_def)
  have nb: "openAIBaseUrl (config\<lparr>baseUrl := u\<rparr>) = u"
    using ne t ns by (rule openAIBaseUrl_of_clean)
  have "includes_str ''/chat/completions'' ''/chat/completions''" by (rule includes_str_self)
  then have "includes_str ((q @ ''/v1'') @ ''/chat/completions'') ''/chat/completions''"
    by (rule includes_str_append_right)
  then have inc: "includes_str u ''/chat/completions''" by (simp add: u_def)
  have "url (getOpenAIEndpoint w (config\<lparr>baseUrl := u\<rparr>)) = u"
    using inc by (simp only: getOpenAIEndpoint_url nb) simp
  then show ?thesis by (simp only: u_def)
qed

lemma openAI_resolution:
  assumes "\<not> includes_str (openAIBaseUrl config) ''/chat/completions''"
  shows "endsWith (url (getOpenAIEndpoint w config)) ''/v1/chat/completions''"
    and "count_str (url (getOpenAIEndpoint w config)) ''/chat/completions'' = 1"
    and "url (getOpenAIEndpoint w (config\<lparr>baseUrl := url (getOpenAIEndpoint w config)\<rparr>))
           = url (getOpenAIEndpoint w config)"
proof -
  obtain q where u: "url (getOpenAIEndpoint w config) = q @ ''/v1'' @ ''/chat/completions''"
    and ni: "\<not> includes_str (q @ ''/v1'') ''/chat/completions''"
    and hq: "q = [] \<or> \<not> isWhiteSpace (hd q)"
    using openAI_url_shape [OF assms] by blast
  have u': "url (getOpenAIEndpoint w config) = q @ ''/v1/chat/completions''"
    using u by simp
  show "endsWith (url (getOpenAIEndpoint w config)) ''/v1/chat/completions''"
    by (simp only: u' endsWith_append)
  have "count_str ((q @ ''/v1'') @ ''/chat/completions'') ''/chat/completions'' = 1"
  proof (rule count_str_once)
    show "''/chat/completions'' \<noteq> []" by simp
    show "\<not> includes_str (q @ ''/v1'') ''/chat/completions''" by (rule ni)
    show "drop k ''/chat/completions''
            \<noteq> take (length ''/chat/completions'' - k) ''/chat/completions''"
      if "0 < k" and "k < length ''/chat/completions''" for k
      using that by (rule completions_no_border)
  qed
  then show "count_str (url (getOpenAIEndpoint w config)) ''/chat/completions'' = 1"
    by (simp add: u')
  show "url (getOpenAIEndpoint w (config\<lparr>baseUrl := url (getOpenAIEndpoint w config)\<rparr>))
           = url (getOpenAIEndpoint w config)"
    by (simp only: u' openAI_resolved_fixed [OF hq])
qed


lemma openAI_url_from_base:
  assumes "openAIBaseUrl config = x" and "\<not> includes_str x ''/chat/completions''"
  shows "url (getOpenAIEndpoint w config)
           = (if endsWith x ''/v1'' then x else x @ ''/v1'') @ ''/chat/completions''"
  using assms by (simp only: getOpenAIEndpoint_url) simp

lemma openAI_four_variants:
  assumes ne: "h \<noteq> []" and hd: "\<not> isWhiteSpace (hd h)" and la: "\<not> isWhiteSpace (last h)"
    and ns: "\<not> endsWith h ''/''" and nv: "\<not> endsWith h ''/v1''"
    and ni: "\<not> includes_str h ''/chat/completions''"
  shows "url (getOpenAIEndpoint w (config\<lparr>baseUrl := h\<rparr>)) = h @ ''/v1/chat/completions''"
    and "url (getOpenAIEndpoint w (config\<lparr>baseUrl := h @ ''/''\<rparr>)) = h @ ''/v1/chat/completions''"
    and "url (getOpenAIEndpoint w (config\<lparr>baseUrl := h @ ''/v1''\<rparr>)) = h @ ''/v1/chat/completions''"
    and "url (getOpenAIEndpoint w (config\<lparr>baseUrl := h @ ''/v1/''\<rparr>)) = h @ ''/v1/chat/completions''"
proof -
  have hh: "h = [] \<or> \<not> isWhiteSpace (hd h)" using hd by simp
  have niv: "\<not> includes_str (h @ ''/v1'') ''/chat/completions''"
    using ni by (rule not_includes_v1)
  have ev: "endsWith (h @ ''/v1'') ''/v1''" by (rule endsWith_append)
  have b1: "openAIBaseUrl (config\<lparr>baseUrl := h\<rparr>) = h"
    using ne trim_clean [OF ne hd la] ns by (rule openAIBaseUrl_of_clean)
  have t2: "trim (h @ ''/'') = h @ ''/''"
    using hh by (intro trim_base_suffix) simp_all
  have b2: "openAIBaseUrl (config\<lparr>baseUrl := h @ ''/''\<rparr>) = h"
    using t2 by (rule openAIBaseUrl_of_clean_slash)
  have t3: "trim (h @ ''/v1'') = h @ ''/v1''"
    using hh by (intro trim_base_suffix) simp_all
  have n3: "h @ ''/v1'' \<noteq> []" by simp
  have s3: "\<not> endsWith (h @ ''/v1'') ''/''" by (simp add: endsWith_def)
  have b3: "openAIBaseUrl (config\<lparr>baseUrl := h @ ''/v1''\<rparr>) = h @ ''/v1''"
    using n3 t3 s3 by (rule openAIBaseUrl_of_clean)
  have hv: "h @ ''/v1'' = [] \<or> \<not> isWhiteSpace (hd (h @ ''/v1''))"
    using ne hd by simp
  have t4: "trim ((h @ ''/v1'') @ ''/'') = (h @ ''/v1'') @ ''/''"
    using hv by (rule trim_base_suffix) simp_all
  have "openAIBaseUrl (config\<lparr>baseUrl := (h @ ''/v1'') @ ''/''\<rparr>) = h @ ''/v1''"
    using t4 by (rule openAIBaseUrl_of_clean_slash)
  then have b4: "openAIBaseUrl (config\<lparr>baseUrl := h @ ''/v1/''\<rparr>) = h @ ''/v1''"
    by simp
  show "url (getOpenAIEndpoint w (config\<lparr>baseUrl := h\<rparr>)) = h @ ''/v1/chat/completions''"
    using openAI_url_from_base [OF b1 ni] nv by simp
  show "url (getOpenAIEndpoint w (config\<lparr>baseUrl := h @ ''/''\<rparr>)) = h @ ''/v1/chat/completions''"
    using openAI_url_from_base [OF b2 ni] nv by simp
  show "url (getOpenAIEndpoint w (config\<lparr>baseUrl := h @ ''/v1''\<rparr>)) = h @ ''/v1/chat/completions''"
    using openAI_url_from_base [OF b3 niv] ev by simp
  show "url (getOpenAIEndpoint w (config\<lparr>baseUrl := h @ ''/v1/''\<rparr>)) = h @ ''/v1/chat/completions''"
    using openAI_url_from_base [OF b4 niv] ev by simp
qed

text \<open>
  Claim C3, as amended. Family A: a base URL that already ends with the version segment,
  with or without a slash after it, resolves to the same URL as the base URL without the
  segment. Family B: a base URL that does not yet contain \<open>/chat/completions\<close> resolves to
  a URL that ends with \<open>/v1/chat/completions\<close> and contains \<open>/chat/completions\<close> exactly
  once, and resolving that URL again returns it unchanged; a base URL that already
  contains \<open>/chat/completions\<close> is returned as normalised, with nothing appended. In
  particular a base \<open>h\<close> without surrounding white space, trailing slash, trailing \<open>/v1\<close>
  or \<open>/chat/completions\<close> resolves to \<open>h/v1/chat/completions\<close> whether it is given as
  \<open>h\<close>, \<open>h/\<close>, \<open>h/v1\<close> or \<open>h/v1/\<close>.
\<close>

theorem C3_endpoint_resolution:
  "url (getGeminiEndpoint w (config\<lparr>baseUrl := geminiBaseUrl config @ ''/v1beta''\<rparr>) method)
     = url (getGeminiEndpoint w config method)
   \<and> url (getGeminiEndpoint w (config\<lparr>baseUrl := geminiBaseUrl config @ ''/v1beta/''\<rparr>) method)
       = url (getGeminiEndpoint w config method)
   \<and> (\<not> includes_str (openAIBaseUrl config) ''/chat/completions''
        \<longrightarrow> endsWith (url (getOpenAIEndpoint w config)) ''/v1/chat/completions''
            \<and> count_str (url (getOpenAIEndpoint w config)) ''/chat/completions'' = 1
            \<and> url (getOpenAIEndpoint w (config\<lparr>baseUrl := url (getOpenAIEndpoint w config)\<rparr>))
                = url (getOpenAIEndpoint w config))
   \<and> (includes_str (openAIBaseUrl config) ''/chat/completions''
        \<longrightarrow> url (getOpenAIEndpoint w config) = openAIBaseUrl config)
   \<and> (h \<noteq> [] \<and> \<not> isWhiteSpace (hd h) \<and> \<not> isWhiteSpace (last h)
        \<and> \<not> endsWith h ''/'' \<and> \<not> endsWith h ''/v1''
        \<and> \<not> includes_str h ''/chat/completions''
        \<longrightarrow> url (getOpenAIEndpoint w (config\<lparr>baseUrl := h\<rparr>)) = h @ ''/v1/chat/completions''
            \<and> url (getOpenAIEndpoint w (config\<lparr>baseUrl := h @ ''/''\<rparr>))
                = h @ ''/v1/chat/completions''
            \<and> url (getOpenAIEndpoint w (config\<lparr>baseUrl := h @ ''/v1''\<rparr>))
                = h @ ''/v1/chat/completions''
            \<and> url (getOpenAIEndpoint w (config\<lparr>baseUrl := h @ ''/v1/''\<rparr>))
                = h @ ''/v1/chat/completions'')"
proof (intro conjI impI)
  show "url (getGeminiEndpoint w (config\<lparr>baseUrl := geminiBaseUrl config @ ''/v1beta''\<rparr>) method)
     = url (getGeminiEndpoint w config method)"
    by (rule gemini_versioned_same_url(1))
  show "url (getGeminiEndpoint w (config\<lparr>baseUrl := geminiBaseUrl config @ ''/v1beta/''\<rparr>) method)
       = url (getGeminiEndpoint w config method)"
    by (rule gemini_versioned_same_url(2))
next
  assume a: "\<not> includes_str (openAIBaseUrl config) ''/chat/completions''"
  show "endsWith (url (getOpenAIEndpoint w config)) ''/v1/chat/completions''"
    by (rule openAI_resolution(1) [OF a])
  show "count_str (url (getOpenAIEndpoint w config)) ''/chat/completions'' = 1"
    by (rule openAI_resolution(2) [OF a])
  show "url (getOpenAIEndpoint w (config\<lparr>baseUrl := url (getOpenAIEndpoint w config)\<rparr>))
                = url (getOpenAIEndpoint w config)"
    by (rule openAI_resolution(3) [OF a])
next
  assume "includes_str (openAIBaseUrl config) ''/chat/completions''"
  then show "url (getOpenAIEndpoint w config) = openAIBaseUrl config"
    by (simp only: getOpenAIEndpoint_url) simp
next
  assume h: "h \<noteq> [] \<and> \<not> isWhiteSpace (hd h) \<and> \<not> isWhiteSpace (last h)
        \<and> \<not> endsWith h ''/'' \<and> \<not> endsWith h ''/v1''
        \<and> \<not> includes_str h ''/chat/completions''"
  note v = openAI_four_variants [of h w config]
  show "url (getOpenAIEndpoint w (config\<lparr>baseUrl := h\<rparr>)) = h @ ''/v1/chat/completions''"
    using h by (intro v(1)) simp_all
  show "url (getOpenAIEndpoint w (config\<lparr>baseUrl := h @ ''/''\<rparr>)) = h @ ''/v1/chat/completions''"
    using h by (intro v(2)) simp_all
  show "url (getOpenAIEndpoint w (config\<lparr>baseUrl := h @ ''/v1''\<rparr>)) = h @ ''/v1/chat/completions''"
    using h by (intro v(3)) simp_all
  show "url (getOpenAIEndpoint w (config\<lparr>baseUrl := h @ ''/v1/''\<rparr>)) = h @ ''/v1/chat/completions''"
    using h by (intro v(4)) simp_all
qed


lemmas eval_str = trim_def isWhiteSpace_def endsWith_def slice_end_def startsWith_def
  or_else_def truthy_def

lemma openAIBaseUrl_example:
  "openAIBaseUrl (openaiConfig ''https://api.example.com'') = ''https://api.example.com''"
  by (simp add: openAIBaseUrl_def openaiConfig_def config0_def Let_def eval_str)

lemma not_includes_example:
  "\<not> includes_str ''https://api.example.com'' ''/chat/completions''"
  by (simp add: startsWith_def)

lemma geminiBaseUrl_config0:
  "geminiBaseUrl config0 = ''https://generativelanguage.googleapis.com''"
  by (simp add: geminiBaseUrl_def config0_def Let_def eval_str)

text \<open>
  Claim C3 as stated fails at a base URL that names the completions path without a
  version: it is returned as it is, and the result neither ends with nor contains
  \<open>/v1/chat/completions\<close>.
\<close>

theorem C3_counterexample:
  "url (getOpenAIEndpoint world0 (openaiConfig ''https://api.example.com/chat/completions''))
     = ''https://api.example.com/chat/completions''
   \<and> \<not> endsWith
         (url (getOpenAIEndpoint world0 (openaiConfig ''https://api.example.com/chat/completions'')))
         ''/v1/chat/completions''
   \<and> \<not> includes_str
         (url (getOpenAIEndpoint world0 (openaiConfig ''https://api.example.com/chat/completions'')))
         ''/v1/chat/completions''"
proof -
  have b: "openAIBaseUrl (openaiConfig ''https://api.example.com/chat/completions'')
             = ''https://api.example.com/chat/completions''"
    by (simp add: openAIBaseUrl_def openaiConfig_def config0_def Let_def eval_str)
  have i: "includes_str ''https://api.example.com/chat/completions'' ''/chat/completions''"
    by (simp add: startsWith_def)
  have u: "url (getOpenAIEndpoint world0 (openaiConfig ''https://api.example.com/chat/completions''))
     = ''https://api.example.com/chat/completions''"
    using i by (simp only: getOpenAIEndpoint_url b) simp
  have e: "\<not> endsWith ''https://api.example.com/chat/completions'' ''/v1/chat/completions''"
    by (simp add: endsWith_def)
  have n: "\<not> includes_str ''https://api.example.com/chat/completions'' ''/v1/chat/completions''"
    by (simp add: startsWith_def)
  show ?thesis
    using e n by (simp only: u) simp
qed

text \<open>The theorem at the base \<open>https://api.example.com\<close> in its four forms and at the
  resolved URL itself, and at the default family-A base with the version segment.\<close>

theorem C3_witness:
  "\<not> includes_str (openAIBaseUrl (openaiConfig ''https://api.example.com'')) ''/chat/completions''
   \<and> url (getOpenAIEndpoint world0 (openaiConfig ''https://api.example.com''))
       = ''https://api.example.com/v1/chat/completions''
   \<and> url (getOpenAIEndpoint world0 (openaiConfig ''https://api.example.com/''))
       = ''https://api.example.com/v1/chat/completions''
   \<and> url (getOpenAIEndpoint world0 (openaiConfig ''https://api.example.com/v1''))
       = ''https://api.example.com/v1/chat/completions''
   \<and> url (getOpenAIEndpoint world0 (openaiConfig ''https://api.example.com/v1/''))
       = ''https://api.example.com/v1/chat/completions''
   \<and> url (getOpenAIEndpoint world0 (openaiConfig ''https://api.example.com/v1/chat/completions''))
       = ''https://api.example.com/v1/chat/completions''
   \<and> count_str ''https://api.example.com/v1/chat/completions'' ''/chat/completions'' = 1
   \<and> url (getGeminiEndpoint world0
          (config0\<lparr>baseUrl := ''https://generativelanguage.googleapis.com/v1beta''\<rparr>)
          ''generateContent'')
       = url (getGeminiEndpoint world0 config0 ''generateContent'')"
proof -
  define h where "h = ''https://api.example.com''"
  have ni: "\<not> includes_str (openAIBaseUrl (openaiConfig h)) ''/chat/completions''"
    unfolding h_def by (simp only: openAIBaseUrl_example not_includes_example) simp
  have hyp: "h \<noteq> [] \<and> \<not> isWhiteSpace (hd h) \<and> \<not> isWhiteSpace (last h)
        \<and> \<not> endsWith h ''/'' \<and> \<not> endsWith h ''/v1''
        \<and> \<not> includes_str h ''/chat/completions''"
    unfolding h_def by (simp add: isWhiteSpace_def endsWith_def startsWith_def)
  note t = C3_endpoint_resolution [of world0 "openaiConfig h" "''generateContent''" h]
  have four: "url (getOpenAIEndpoint world0 ((openaiConfig h)\<lparr>baseUrl := h\<rparr>))
                = h @ ''/v1/chat/completions''
            \<and> url (getOpenAIEndpoint world0 ((openaiConfig h)\<lparr>baseUrl := h @ ''/''\<rparr>))
                = h @ ''/v1/chat/completions''
            \<and> url (getOpenAIEndpoint world0 ((openaiConfig h)\<lparr>baseUrl := h @ ''/v1''\<rparr>))
                = h @ ''/v1/chat/completions''
            \<and> url (getOpenAIEndpoint world0 ((openaiConfig h)\<lparr>baseUrl := h @ ''/v1/''\<rparr>))
                = h @ ''/v1/chat/completions''"
    using t hyp by blast
  have upd: "(openaiConfig a)\<lparr>baseUrl := b\<rparr> = openaiConfig b" for a b
    by (simp add: openaiConfig_def)
  have u: "url (getOpenAIEndpoint world0 (openaiConfig h)) = h @ ''/v1/chat/completions''"
    using four by (simp add: upd)
  have once: "count_str (url (getOpenAIEndpoint world0 (openaiConfig h))) ''/chat/completions'' = 1"
    and again: "url (getOpenAIEndpoint world0
                  ((openaiConfig h)\<lparr>baseUrl := url (getOpenAIEndpoint world0 (openaiConfig h))\<rparr>))
                = url (getOpenAIEndpoint world0 (openaiConfig h))"
    using t ni by blast+
  have g: "url (getGeminiEndpoint world0
             (config0\<lparr>baseUrl := geminiBaseUrl config0 @ ''/v1beta''\<rparr>) ''generateContent'')
           = url (getGeminiEndpoint world0 config0 ''generateContent'')"
    using C3_endpoint_resolution [of world0 config0 "''generateContent''" h] by blast
  show ?thesis
    using ni four once again g
    by (simp add: upd u geminiBaseUrl_config0 h_def)
qed

end
